theory Spec2Isabelle
  imports Main "HOL-Library.Sublist" "HOL-Library.Word"
begin

section \<open>Go strings and the helpers of package strings that the service calls\<close>

text \<open>
  A Go string is a sequence of bytes, here a \<^typ>\<open>string\<close>. The functions
  \<^verbatim>\<open>strings.TrimSpace\<close> and \<^verbatim>\<open>strings.Fields\<close> decode UTF-8 and ask
  \<^verbatim>\<open>unicode.IsSpace\<close> of every rune. The runes with that property are U+0009..U+000D,
  U+0020, U+0085, U+00A0, U+1680, U+2000..U+200A, U+2028, U+2029, U+202F, U+205F and
  U+3000. Their UTF-8 encodings are listed below. Each encoding starts with a byte that
  is not a continuation byte, so it always begins at a rune boundary and looking for the
  byte sequence is the same as decoding.
\<close>

definition spaceRunes :: "string list" where
  "spaceRunes =
    [[CHR 0x09], [CHR 0x0A], [CHR 0x0B], [CHR 0x0C], [CHR 0x0D], [CHR 0x20],
     [CHR 0xC2, CHR 0x85], [CHR 0xC2, CHR 0xA0],
     [CHR 0xE1, CHR 0x9A, CHR 0x80],
     [CHR 0xE2, CHR 0x80, CHR 0x80], [CHR 0xE2, CHR 0x80, CHR 0x81],
     [CHR 0xE2, CHR 0x80, CHR 0x82], [CHR 0xE2, CHR 0x80, CHR 0x83],
     [CHR 0xE2, CHR 0x80, CHR 0x84], [CHR 0xE2, CHR 0x80, CHR 0x85],
     [CHR 0xE2, CHR 0x80, CHR 0x86], [CHR 0xE2, CHR 0x80, CHR 0x87],
     [CHR 0xE2, CHR 0x80, CHR 0x88], [CHR 0xE2, CHR 0x80, CHR 0x89],
     [CHR 0xE2, CHR 0x80, CHR 0x8A],
     [CHR 0xE2, CHR 0x80, CHR 0xA8], [CHR 0xE2, CHR 0x80, CHR 0xA9],
     [CHR 0xE2, CHR 0x80, CHR 0xAF], [CHR 0xE2, CHR 0x81, CHR 0x9F],
     [CHR 0xE3, CHR 0x80, CHR 0x80]]"

text \<open>The width in bytes of the white-space rune a string starts with, 0 when it
  starts with none.\<close>

definition leadingSpace :: "string \<Rightarrow> nat" where
  "leadingSpace s = (case find (\<lambda>p. prefix p s) spaceRunes of None \<Rightarrow> 0 | Some p \<Rightarrow> length p)"

text \<open>The width of the white-space rune a string ends with, 0 when it ends with none.\<close>

definition trailingSpace :: "string \<Rightarrow> nat" where
  "trailingSpace s = (case find (\<lambda>p. suffix p s) spaceRunes of None \<Rightarrow> 0 | Some p \<Rightarrow> length p)"

lemma spaceRunes_nonempty: "p \<in> set spaceRunes \<Longrightarrow> 0 < length p"
  by (auto simp: spaceRunes_def)

lemma leadingSpace_zero_iff:
  "leadingSpace s = 0 \<longleftrightarrow> (\<forall>p \<in> set spaceRunes. \<not> prefix p s)"
proof (cases "find (\<lambda>p. prefix p s) spaceRunes")
  case None
  then have "\<forall>p \<in> set spaceRunes. \<not> prefix p s"
    by (simp add: find_None_iff)
  with None show ?thesis by (simp add: leadingSpace_def)
next
  case (Some p)
  then have "p \<in> set spaceRunes" "prefix p s"
    by (auto simp: find_Some_iff)
  with Some show ?thesis
    using spaceRunes_nonempty [of p] by (auto simp: leadingSpace_def)
qed

lemma trailingSpace_zero_iff:
  "trailingSpace s = 0 \<longleftrightarrow> (\<forall>p \<in> set spaceRunes. \<not> suffix p s)"
proof (cases "find (\<lambda>p. suffix p s) spaceRunes")
  case None
  then have "\<forall>p \<in> set spaceRunes. \<not> suffix p s"
    by (simp add: find_None_iff)
  with None show ?thesis by (simp add: trailingSpace_def)
next
  case (Some p)
  then have "p \<in> set spaceRunes" "suffix p s"
    by (auto simp: find_Some_iff)
  with Some show ?thesis
    using spaceRunes_nonempty [of p] by (auto simp: trailingSpace_def)
qed

lemma leadingSpace_le: "leadingSpace s \<le> length s"
  by (auto simp: leadingSpace_def find_Some_iff prefix_length_le split: option.splits)

lemma trailingSpace_le: "trailingSpace s \<le> length s"
  by (auto simp: trailingSpace_def find_Some_iff suffix_length_le split: option.splits)

function trimLeftSpace :: "string \<Rightarrow> string" where
  "trimLeftSpace s =
     (if leadingSpace s = 0 then s else trimLeftSpace (drop (leadingSpace s) s))"
  by pat_completeness auto
termination
proof (relation "measure length")
  show "wf (measure length)" by simp
next
  fix s :: string
  assume "leadingSpace s \<noteq> 0"
  with leadingSpace_le [of s] show "(drop (leadingSpace s) s, s) \<in> measure length"
    by simp
qed

function trimRightSpace :: "string \<Rightarrow> string" where
  "trimRightSpace s =
     (if trailingSpace s = 0 then s
      else trimRightSpace (take (length s - trailingSpace s) s))"
  by pat_completeness auto
termination
proof (relation "measure length")
  show "wf (measure length)" by simp
next
  fix s :: string
  assume "trailingSpace s \<noteq> 0"
  with trailingSpace_le [of s]
  show "(take (length s - trailingSpace s) s, s) \<in> measure length"
    by simp
qed

declare trimLeftSpace.simps [simp del] trimRightSpace.simps [simp del]

text \<open>\<^verbatim>\<open>strings.TrimSpace\<close>: all leading and trailing white space removed.\<close>

definition TrimSpace :: "string \<Rightarrow> string" where
  "TrimSpace s = trimRightSpace (trimLeftSpace s)"

text \<open>\<^verbatim>\<open>strings.TrimPrefix(s, prefix)\<close>: \<open>s\<close> without the prefix when it has it,
  \<open>s\<close> itself otherwise.\<close>

definition TrimPrefix :: "string \<Rightarrow> string \<Rightarrow> string" where
  "TrimPrefix s p = (if prefix p s then drop (length p) s else s)"

lemma trimLeftSpace_leading: "leadingSpace (trimLeftSpace s) = 0"
  by (induction s rule: trimLeftSpace.induct) (subst trimLeftSpace.simps, simp)

lemma trimRightSpace_trailing: "trailingSpace (trimRightSpace s) = 0"
  by (induction s rule: trimRightSpace.induct) (subst trimRightSpace.simps, simp)

lemma leadingSpace_take: "leadingSpace s = 0 \<Longrightarrow> leadingSpace (take n s) = 0"
  unfolding leadingSpace_zero_iff
  by (meson prefix_order.trans take_is_prefix)

lemma trimRightSpace_leading: "leadingSpace s = 0 \<Longrightarrow> leadingSpace (trimRightSpace s) = 0"
proof (induction s rule: trimRightSpace.induct)
  case (1 s)
  show ?case
  proof (cases "trailingSpace s = 0")
    case True
    with "1.prems" show ?thesis by (subst trimRightSpace.simps) simp
  next
    case False
    with "1.IH" "1.prems" leadingSpace_take show ?thesis
      by (subst trimRightSpace.simps) simp
  qed
qed

lemma TrimSpace_trimmed: "leadingSpace (TrimSpace s) = 0 \<and> trailingSpace (TrimSpace s) = 0"
  by (simp add: TrimSpace_def trimRightSpace_trailing trimRightSpace_leading trimLeftSpace_leading)

lemma TrimSpace_id: "leadingSpace s = 0 \<Longrightarrow> trailingSpace s = 0 \<Longrightarrow> TrimSpace s = s"
  by (simp add: TrimSpace_def trimLeftSpace.simps trimRightSpace.simps)

lemma TrimSpace_abc: "TrimSpace ''abc'' = ''abc''"
  by (rule TrimSpace_id)
    (simp_all add: leadingSpace_zero_iff trailingSpace_zero_iff spaceRunes_def suffix_to_prefix)

lemma TrimSpace_Nil: "TrimSpace [] = []"
  by (simp add: TrimSpace_def trimLeftSpace.simps trimRightSpace.simps
      leadingSpace_zero_iff trailingSpace_zero_iff spaceRunes_def)

text \<open>
  \<^verbatim>\<open>strings.Fields\<close> splits a string around each run of white space and returns the
  pieces between the runs, none of which is empty. \<open>fieldsFrom cur s\<close> scans \<open>s\<close>
  from the left with the bytes of the field it is in collected in \<open>cur\<close>.
\<close>

function fieldsFrom :: "string \<Rightarrow> string \<Rightarrow> string list" where
  "fieldsFrom cur s =
     (if s = [] then (if cur = [] then [] else [cur])
      else if leadingSpace s = 0 then fieldsFrom (cur @ [hd s]) (tl s)
      else (if cur = [] then [] else [cur]) @ fieldsFrom [] (drop (leadingSpace s) s))"
  by pat_completeness auto
termination
proof (relation "measure (\<lambda>(cur, s). length s)")
  show "wf (measure (\<lambda>(cur, s). length s))" by simp
next
  fix cur s :: string
  assume "s \<noteq> []"
  then show "((cur @ [hd s], tl s), (cur, s)) \<in> measure (\<lambda>(cur, s). length s)"
    by simp
next
  fix cur s :: string
  assume "s \<noteq> []" "leadingSpace s \<noteq> 0"
  then show "(([], drop (leadingSpace s) s), (cur, s)) \<in> measure (\<lambda>(cur, s). length s)"
    by simp
qed

declare fieldsFrom.simps [simp del]

definition Fields :: "string \<Rightarrow> string list" where
  "Fields s = fieldsFrom [] s"

section \<open>Errors\<close>

text \<open>
  Go's \<^verbatim>\<open>error\<close> values that the service creates or receives.
  \<open>errorString\<close> is an error made by \<^verbatim>\<open>fmt.Errorf\<close> without a wrapped cause,
  \<open>wrapError\<close> one made with \<^verbatim>\<open>%w\<close>.
\<close>

datatype error =
    errorString string
  | wrapError string error
  | ErrNoRows
  | ErrConnDone
  | ErrUniqueViolation
  | ErrForeignKeyViolation
  | ErrTokenMalformed
  | ErrTokenSignatureInvalid
  | ErrTokenUnverifiable
  | ErrTokenExpired
  | ErrTokenNotValidYet
  | ErrTokenInvalidClaims "error list"
  | ErrInvalidUUID
  | ErrMismatchedHashAndPassword
  | ErrPasswordTooLong
  | ErrHashTooShort
  | ErrJSONSyntax

section \<open>Package auth: the bearer token of a request\<close>

text \<open>
  \<^verbatim>\<open>http.Header\<close> is a \<^verbatim>\<open>map[string][]string\<close>. \<^verbatim>\<open>Get\<close> returns the first
  value stored under the canonical form of the key and the empty string when there is
  none. The key \<^verbatim>\<open>"Authorization"\<close> is its own canonical form.
\<close>

type_synonym Header = "string \<rightharpoonup> string list"

definition Header_Get :: "Header \<Rightarrow> string \<Rightarrow> string" where
  "Header_Get h key = (case h key of None \<Rightarrow> [] | Some [] \<Rightarrow> [] | Some (v # _) \<Rightarrow> v)"

definition GetBearerToken :: "Header \<Rightarrow> error + string" where
  "GetBearerToken headers =
     (let tokenString = Header_Get headers ''Authorization'' in
      if tokenString = [] then Inl (errorString ''No token string provided'')
      else Inr (TrimSpace (TrimPrefix tokenString ''Bearer '')))"

text \<open>What the specification calls the remainder: the header value without the scheme
  prefix and without surrounding white space.\<close>

definition remainder :: "Header \<Rightarrow> string" where
  "remainder headers = TrimSpace (TrimPrefix (Header_Get headers ''Authorization'') ''Bearer '')"

subsection \<open>Claim C5\<close>

text \<open>
  C5, as the specification states it: bearer extraction returns the error exactly when
  the authorization header is absent or the remainder after stripping the scheme prefix
  and the surrounding white space is empty. The code tests the header value before it
  strips anything, so a header holding the scheme prefix alone is accepted: the call
  returns the empty token and no error, although the remainder is empty.
\<close>

theorem GetBearerToken_empty_remainder_counterexample:
  "remainder [''Authorization'' \<mapsto> [''Bearer '']] = [] \<and>
   GetBearerToken [''Authorization'' \<mapsto> [''Bearer '']] = Inr []"
  by (simp add: remainder_def GetBearerToken_def Header_Get_def TrimPrefix_def TrimSpace_Nil)

text \<open>
  C5, amended: bearer extraction returns the error exactly when the authorization header
  is absent or its first value is empty. In every other case it returns, without an
  error, the header value with the scheme prefix removed when the value starts with it,
  and with all leading and trailing white space removed; that token may be empty. The
  function is total, so it never crashes.
\<close>

theorem GetBearerToken_spec:
  "((\<exists>e. GetBearerToken h = Inl e) \<longleftrightarrow>
      (h ''Authorization'' = None \<or> h ''Authorization'' = Some [] \<or>
       (\<exists>vs. h ''Authorization'' = Some ([] # vs)))) \<and>
   (\<forall>v vs rest. h ''Authorization'' = Some (v # vs) \<and> v \<noteq> [] \<longrightarrow>
      (\<exists>tok. GetBearerToken h = Inr tok \<and>
         leadingSpace tok = 0 \<and> trailingSpace tok = 0 \<and>
         (v = ''Bearer '' @ rest \<longrightarrow> tok = TrimSpace rest) \<and>
         (\<not> prefix ''Bearer '' v \<longrightarrow> tok = TrimSpace v)))"
proof (intro conjI allI impI)
  show "(\<exists>e. GetBearerToken h = Inl e) \<longleftrightarrow>
      (h ''Authorization'' = None \<or> h ''Authorization'' = Some [] \<or>
       (\<exists>vs. h ''Authorization'' = Some ([] # vs)))"
    by (auto simp: GetBearerToken_def Header_Get_def Let_def split: option.splits list.splits)
next
  fix v vs rest
  assume a: "h ''Authorization'' = Some (v # vs) \<and> v \<noteq> []"
  then have g: "GetBearerToken h = Inr (TrimSpace (TrimPrefix v ''Bearer ''))"
    by (simp add: GetBearerToken_def Header_Get_def)
  have p: "v = ''Bearer '' @ rest \<longrightarrow> TrimPrefix v ''Bearer '' = rest"
    by (simp add: TrimPrefix_def)
  have q: "\<not> prefix ''Bearer '' v \<longrightarrow> TrimPrefix v ''Bearer '' = v"
    by (simp add: TrimPrefix_def)
  from g p q TrimSpace_trimmed [of "TrimPrefix v ''Bearer ''"]
  show "\<exists>tok. GetBearerToken h = Inr tok \<and>
         leadingSpace tok = 0 \<and> trailingSpace tok = 0 \<and>
         (v = ''Bearer '' @ rest \<longrightarrow> tok = TrimSpace rest) \<and>
         (\<not> prefix ''Bearer '' v \<longrightarrow> tok = TrimSpace v)"
    by auto
qed

lemma GetBearerToken_abc: "GetBearerToken [''Authorization'' \<mapsto> [''Bearer abc'']] = Inr ''abc''"
  by (simp add: GetBearerToken_def Header_Get_def TrimPrefix_def TrimSpace_abc)

theorem GetBearerToken_spec_witness:
  "(\<exists>tok. GetBearerToken [''Authorization'' \<mapsto> [''Bearer  abc '']] = Inr tok \<and>
      leadingSpace tok = 0 \<and> trailingSpace tok = 0 \<and> tok = TrimSpace '' abc '') \<and>
   (\<exists>e. GetBearerToken Map.empty = Inl e)"
proof -
  let ?h = "[''Authorization'' \<mapsto> [''Bearer  abc '']]"
  have "\<forall>v vs rest. ?h ''Authorization'' = Some (v # vs) \<and> v \<noteq> [] \<longrightarrow>
      (\<exists>tok. GetBearerToken ?h = Inr tok \<and>
         leadingSpace tok = 0 \<and> trailingSpace tok = 0 \<and>
         (v = ''Bearer '' @ rest \<longrightarrow> tok = TrimSpace rest) \<and>
         (\<not> prefix ''Bearer '' v \<longrightarrow> tok = TrimSpace v))"
    using GetBearerToken_spec [of ?h] by (rule conjunct2)
  then have "?h ''Authorization'' = Some (''Bearer  abc '' # []) \<and> ''Bearer  abc '' \<noteq> [] \<longrightarrow>
      (\<exists>tok. GetBearerToken ?h = Inr tok \<and>
         leadingSpace tok = 0 \<and> trailingSpace tok = 0 \<and>
         (''Bearer  abc '' = ''Bearer '' @ '' abc '' \<longrightarrow> tok = TrimSpace '' abc '') \<and>
         (\<not> prefix ''Bearer '' ''Bearer  abc '' \<longrightarrow> tok = TrimSpace ''Bearer  abc ''))"
    by blast
  then have a: "\<exists>tok. GetBearerToken ?h = Inr tok \<and>
      leadingSpace tok = 0 \<and> trailingSpace tok = 0 \<and> tok = TrimSpace '' abc ''"
    by simp
  have "(\<exists>e. GetBearerToken Map.empty = Inl e) \<longleftrightarrow>
      (Map.empty ''Authorization'' = (None :: string list option) \<or>
       Map.empty ''Authorization'' = Some ([] :: string list) \<or>
       (\<exists>vs. Map.empty ''Authorization'' = Some (([] :: string) # vs)))"
    using GetBearerToken_spec [of Map.empty] by (rule conjunct1)
  then have b: "\<exists>e. GetBearerToken Map.empty = Inl e"
    by simp
  from a b show ?thesis by (rule conjI)
qed

section \<open>The database\<close>

text \<open>
  \<^verbatim>\<open>uuid.UUID\<close> is an array of 16 bytes. A time is a number of nanoseconds since the
  Unix epoch, a \<^verbatim>\<open>time.Duration\<close> a number of nanoseconds.
\<close>

type_synonym UUID = "128 word"
type_synonym Time = int
type_synonym Duration = int

definition Second :: Duration where
  "Second = 1000000000"

definition Hour :: Duration where
  "Hour = 3600 * Second"

text \<open>The rows of the three relations, as the structs of package database hold them.\<close>

record User =
  u_ID :: UUID
  u_CreatedAt :: Time
  u_UpdatedAt :: Time
  u_Email :: string
  u_HashedPassword :: string
  u_IsChirpyRed :: bool

record RefreshToken =
  rt_Token :: string
  rt_CreatedAt :: Time
  rt_UpdatedAt :: Time
  rt_UserID :: UUID
  rt_ExpiresAt :: Time
  rt_RevokedAt :: "Time option"

record Chirp =
  c_ID :: UUID
  c_CreatedAt :: Time
  c_UpdatedAt :: Time
  c_Body :: string
  c_UserID :: UUID

text \<open>
  The state behind \<^verbatim>\<open>*database.Queries\<close>: the three relations, and whether the
  connection works. On a broken connection every query returns an error that is not
  \<^verbatim>\<open>sql.ErrNoRows\<close>.
\<close>

record Queries =
  up :: bool
  users :: "User list"
  refresh_tokens :: "RefreshToken list"
  chirps :: "Chirp list"

text \<open>A query marked \<^verbatim>\<open>:one\<close> returns the first row of its result, and
  \<^verbatim>\<open>sql.ErrNoRows\<close> when the result is empty.\<close>

definition one :: "'a list \<Rightarrow> error + 'a" where
  "one rows = (case rows of [] \<Rightarrow> Inl ErrNoRows | r # _ \<Rightarrow> Inr r)"

lemma one_Inr_mem: "one rows = Inr r \<Longrightarrow> r \<in> set rows"
  by (cases rows) (auto simp: one_def)

lemma one_filter_Inr: "one (filter P rows) = Inr r \<Longrightarrow> r \<in> set rows \<and> P r"
  using one_Inr_mem [of "filter P rows" r] by auto

lemma one_Inl_iff: "one rows = Inl e \<longleftrightarrow> rows = [] \<and> e = ErrNoRows"
  by (cases rows) (auto simp: one_def)

lemma one_filter_Inr_iff: "(\<exists>r. one (filter P rows) = Inr r) \<longleftrightarrow> (\<exists>r \<in> set rows. P r)"
proof (cases "filter P rows")
  case Nil
  then have "\<forall>r \<in> set rows. \<not> P r"
    by (simp add: filter_empty_conv)
  with Nil show ?thesis by (simp add: one_def)
next
  case (Cons r rs)
  then have "r \<in> set (filter P rows)" by simp
  then have "r \<in> set rows \<and> P r" by simp
  with Cons show ?thesis by (auto simp: one_def)
qed

text \<open>\<^verbatim>\<open>SELECT * FROM users WHERE email = $1\<close>\<close>

definition GetUserByEmail :: "Queries \<Rightarrow> string \<Rightarrow> error + User" where
  "GetUserByEmail q email =
     (if \<not> up q then Inl ErrConnDone
      else one (filter (\<lambda>u. u_Email u = email) (users q)))"

text \<open>
  Modelled from the spec: the schema of the relation of refresh tokens is not among the
  sources. The specification gives the relation as (token unique, created-at,
  updated-at, user-id FK, expires-at, nullable revoked-at): a row is refused when its
  token is already stored, and when its user is not.
\<close>

definition violation :: "Queries \<Rightarrow> string \<Rightarrow> UUID \<Rightarrow> error option" where
  "violation q token userID =
     (if token \<in> set (map rt_Token (refresh_tokens q)) then Some ErrUniqueViolation
      else if userID \<notin> set (map u_ID (users q)) then Some ErrForeignKeyViolation
      else None)"

text \<open>\<^verbatim>\<open>INSERT INTO refresh_tokens (token, created_at, updated_at, user_id, expires_at)
  VALUES ($1, NOW(), NOW(), $2, NOW() + INTERVAL '60 DAYS') RETURNING *\<close>\<close>

definition sixtyDays :: Duration where
  "sixtyDays = 60 * 24 * Hour"

definition CreateRefreshToken ::
  "Time \<Rightarrow> Queries \<Rightarrow> string \<Rightarrow> UUID \<Rightarrow> error + (RefreshToken \<times> Queries)" where
  "CreateRefreshToken now q token userID =
     (if \<not> up q then Inl ErrConnDone
      else
        (case violation q token userID of
           Some err \<Rightarrow> Inl err
         | None \<Rightarrow>
             (let row = \<lparr>rt_Token = token, rt_CreatedAt = now, rt_UpdatedAt = now,
                           rt_UserID = userID, rt_ExpiresAt = now + sixtyDays,
                           rt_RevokedAt = None\<rparr>
              in Inr (row, q\<lparr>refresh_tokens := refresh_tokens q @ [row]\<rparr>))))"

text \<open>\<^verbatim>\<open>SELECT * FROM refresh_tokens
  WHERE token = $1 AND revoked_at IS NULL AND expires_at > NOW()\<close>\<close>

definition GetRefreshToken :: "Time \<Rightarrow> Queries \<Rightarrow> string \<Rightarrow> error + RefreshToken" where
  "GetRefreshToken now q token =
     (if \<not> up q then Inl ErrConnDone
      else one (filter (\<lambda>r. rt_Token r = token \<and> rt_RevokedAt r = None \<and> rt_ExpiresAt r > now)
                  (refresh_tokens q)))"

text \<open>\<^verbatim>\<open>UPDATE refresh_tokens SET revoked_at = NOW(), updated_at = NOW()
  WHERE token = $1\<close>, a query marked \<^verbatim>\<open>:exec\<close>: updating no row is not an error.\<close>

definition revokeRow :: "Time \<Rightarrow> string \<Rightarrow> RefreshToken \<Rightarrow> RefreshToken" where
  "revokeRow now token r =
     (if rt_Token r = token then r\<lparr>rt_RevokedAt := Some now, rt_UpdatedAt := now\<rparr> else r)"

definition RevokeRefreshToken :: "Time \<Rightarrow> Queries \<Rightarrow> string \<Rightarrow> error + Queries" where
  "RevokeRefreshToken now q token =
     (if \<not> up q then Inl ErrConnDone
      else Inr (q\<lparr>refresh_tokens := map (revokeRow now token) (refresh_tokens q)\<rparr>))"

lemma revokeRow_token: "rt_Token (revokeRow now token r) = rt_Token r"
  by (simp add: revokeRow_def)

lemma revokeRow_revoked: "rt_Token r = token \<Longrightarrow> rt_RevokedAt (revokeRow now token r) = Some now"
  by (simp add: revokeRow_def)

lemma revokeRow_stays_revoked:
  "rt_RevokedAt r \<noteq> None \<Longrightarrow> rt_RevokedAt (revokeRow now token r) \<noteq> None"
  by (simp add: revokeRow_def)

lemma revokeRow_tokens: "map rt_Token (map (revokeRow now token) rows) = map rt_Token rows"
  by (induction rows) (simp_all add: revokeRow_token)

text \<open>
  Modelled from the spec: the queries on the relation of chirps (GetChirp, DeleteChirp,
  CreateChirp) are not among the sources. The handlers call them with the id of a chirp,
  or with a body and the id of its author, and read the fields of the row returned; a
  chirp is owned by exactly one user. They are taken to select, delete and insert by
  the id.
\<close>

definition GetChirp :: "Queries \<Rightarrow> UUID \<Rightarrow> error + Chirp" where
  "GetChirp q chirpID =
     (if \<not> up q then Inl ErrConnDone
      else one (filter (\<lambda>c. c_ID c = chirpID) (chirps q)))"

definition DeleteChirp :: "Queries \<Rightarrow> UUID \<Rightarrow> error + Queries" where
  "DeleteChirp q chirpID =
     (if \<not> up q then Inl ErrConnDone
      else Inr (q\<lparr>chirps := filter (\<lambda>c. c_ID c \<noteq> chirpID) (chirps q)\<rparr>))"

definition CreateChirp ::
  "UUID \<Rightarrow> Time \<Rightarrow> Queries \<Rightarrow> string \<Rightarrow> UUID \<Rightarrow> error + (Chirp \<times> Queries)" where
  "CreateChirp newID now q body userID =
     (if \<not> up q then Inl ErrConnDone
      else if newID \<in> set (map c_ID (chirps q)) then Inl ErrUniqueViolation
      else if userID \<notin> set (map u_ID (users q)) then Inl ErrForeignKeyViolation
      else
        (let row = \<lparr>c_ID = newID, c_CreatedAt = now, c_UpdatedAt = now,
                      c_Body = body, c_UserID = userID\<rparr>
         in Inr (row, q\<lparr>chirps := chirps q @ [row]\<rparr>)))"

section \<open>The response\<close>

text \<open>
  What a handler does to its \<^verbatim>\<open>http.ResponseWriter\<close>, in the order of the calls.
  The payloads are the values handed to \<^verbatim>\<open>json.Marshal\<close>, or a plain text.
\<close>

datatype payload =
    plainText string
  | chirpJSON UUID Time Time string UUID
  | userJSON UUID Time Time string string string bool
  | tokenJSON string
  | errorJSON string

datatype event =
    SetHeader string string
  | WriteHeader nat
  | Write payload

text \<open>\<^verbatim>\<open>json.Marshal\<close> has no error to report on these structs of strings, times,
  identifiers and booleans.\<close>

definition json_Marshal :: "payload \<Rightarrow> error + payload" where
  "json_Marshal v = Inr v"

text \<open>
  The status line that goes to the client is that of the first call of
  \<^verbatim>\<open>WriteHeader\<close>; a later call changes nothing, and a \<^verbatim>\<open>Write\<close> with no call before
  it sends 200.
\<close>

fun statusSent :: "event list \<Rightarrow> nat option" where
  "statusSent [] = None"
| "statusSent (WriteHeader c # es) = Some c"
| "statusSent (Write p # es) = Some 200"
| "statusSent (SetHeader k v # es) = statusSent es"

section \<open>The handlers\<close>

text \<open>
  A handler is a function of the request (its decoded body, its headers, its path
  value), of the clock and of the database; it returns the calls made on the response
  writer and the database it leaves. The lines printed to the standard output are left
  out. The functions of package auth that wrap a cryptographic library
  (\<^verbatim>\<open>ValidateJWT\<close>, \<^verbatim>\<open>MakeJWT\<close>, \<^verbatim>\<open>CheckPasswordHash\<close>) and the functions
  \<^verbatim>\<open>uuid.Parse\<close> and \<^verbatim>\<open>strings.ToLower\<close>, which rest on tables of their libraries,
  are the parameters \<open>validateJWT\<close>, \<open>makeJWT\<close>, \<open>checkPasswordHash\<close>, \<open>uuidParse\<close>
  and \<open>toLower\<close> of the handlers that call them, on strings as in the source: what
  is proved of a handler holds whatever these functions return. The functions of
  package auth are modelled on their own in the last two sections.
\<close>

subsection \<open>cleanString and postChirps\<close>

datatype runtimeError = sliceBoundsOutOfRange nat nat

definition badWords :: "string list" where
  "badWords = [''kerfuffle'', ''sharbert'', ''fornax'']"

text \<open>The inner loop of \<^verbatim>\<open>cleanString\<close> for the bad word \<open>b\<close>: every field of \<open>s\<close>, or
  four stars in its place, is appended to \<open>cleaned\<close> after a space.\<close>

definition censor :: "(string \<Rightarrow> string) \<Rightarrow> string \<Rightarrow> string \<Rightarrow> string" where
  "censor toLower s b =
     foldl (\<lambda>cleaned w. if toLower w = b then cleaned @ '' ****'' else cleaned @ '' '' @ w)
       [] (Fields s)"

text \<open>The slice expression \<^verbatim>\<open>s[1:]\<close> panics when \<open>s\<close> is empty.\<close>

definition cleanString :: "(string \<Rightarrow> string) \<Rightarrow> string \<Rightarrow> runtimeError + string" where
  "cleanString toLower s =
     (let s' = foldl (censor toLower) s badWords in
      if length s' < 1 then Inl (sliceBoundsOutOfRange 1 (length s')) else Inr (drop 1 s'))"

definition postChirps ::
  "(string \<Rightarrow> string) \<Rightarrow> (string \<Rightarrow> string \<Rightarrow> error + UUID) \<Rightarrow> UUID \<Rightarrow> Time \<Rightarrow>
   error + string \<Rightarrow> Header \<Rightarrow> string \<Rightarrow> Queries \<Rightarrow> runtimeError + (event list \<times> Queries)" where
  "postChirps toLower validateJWT newID now decoded headers secret q =
     (case decoded of
        Inl err \<Rightarrow> Inr ([WriteHeader 500], q)
      | Inr body \<Rightarrow>
     (case GetBearerToken headers of
        Inl err \<Rightarrow> Inr ([WriteHeader 401], q)
      | Inr tokenString \<Rightarrow>
     (case validateJWT tokenString secret of
        Inl err \<Rightarrow> Inr ([WriteHeader 401], q)
      | Inr userID \<Rightarrow>
     (if body = [] then Inr ([WriteHeader 400], q)
      else
     (case cleanString toLower body of
        Inl p \<Rightarrow> Inl p
      | Inr cleaned \<Rightarrow>
     (if length cleaned \<le> 140 then
        (case CreateChirp newID now q cleaned userID of
           Inl err \<Rightarrow> Inr ([WriteHeader 500], q)
         | Inr (r, q') \<Rightarrow>
        (case json_Marshal
                (chirpJSON (c_ID r) (c_CreatedAt r) (c_UpdatedAt r) (c_Body r) (c_UserID r)) of
           Inl err \<Rightarrow> Inr ([WriteHeader 500], q')
         | Inr dat \<Rightarrow>
             Inr ([SetHeader ''Content-Type'' ''application/json'', WriteHeader 201,
                   Write dat], q')))
      else
        (case json_Marshal (errorJSON ''Chirp is too long'') of
           Inl err \<Rightarrow> Inr ([WriteHeader 500], q)
         | Inr dat \<Rightarrow>
             Inr ([SetHeader ''Content-Type'' ''application/json'', WriteHeader 400,
                   Write dat], q))))))))"

subsection \<open>postLogin\<close>

text \<open>\<^verbatim>\<open>hex.EncodeToString\<close>, and \<^verbatim>\<open>MakeRefreshToken\<close> as a function of the 32 bytes
  that \<^verbatim>\<open>rand.Read\<close> delivers.\<close>

definition hexdigit :: "nat \<Rightarrow> char" where
  "hexdigit n = ''0123456789abcdef'' ! n"

definition EncodeToString :: "8 word list \<Rightarrow> string" where
  "EncodeToString bs = concat (map (\<lambda>b. [hexdigit (unat b div 16), hexdigit (unat b mod 16)]) bs)"

definition MakeRefreshToken :: "8 word list \<Rightarrow> error + string" where
  "MakeRefreshToken byteToken = Inr (EncodeToString byteToken)"

definition postLogin ::
  "(string \<Rightarrow> string \<Rightarrow> error option) \<Rightarrow> (UUID \<Rightarrow> string \<Rightarrow> Duration \<Rightarrow> error + string) \<Rightarrow>
   8 word list \<Rightarrow> Time \<Rightarrow> error + (string \<times> string) \<Rightarrow> string \<Rightarrow> Queries \<Rightarrow>
   event list \<times> Queries" where
  "postLogin checkPasswordHash makeJWT byteToken now decoded secret q =
     (case decoded of
        Inl err \<Rightarrow> ([WriteHeader 500], q)
      | Inr (password, email) \<Rightarrow>
     (case GetUserByEmail q email of
        Inl err \<Rightarrow> ([WriteHeader 500], q)
      | Inr row \<Rightarrow>
     (case checkPasswordHash password (u_HashedPassword row) of
        Some err \<Rightarrow>
          ([SetHeader ''Content-Type'' ''text/plain'', WriteHeader 401,
            Write (plainText ''Incorrect email or password'')], q)
      | None \<Rightarrow>
     (case makeJWT (u_ID row) secret Hour of
        Inl err \<Rightarrow> ([WriteHeader 500], q)
      | Inr tokenString \<Rightarrow>
     (case MakeRefreshToken byteToken of
        Inl err \<Rightarrow> ([WriteHeader 500], q)
      | Inr refreshToken \<Rightarrow>
     (case CreateRefreshToken now q refreshToken (u_ID row) of
        Inl err \<Rightarrow> ([WriteHeader 500], q)
      | Inr (created, q') \<Rightarrow>
     (case json_Marshal
             (userJSON (u_ID row) (u_CreatedAt row) (u_UpdatedAt row) (u_Email row)
                tokenString refreshToken (u_IsChirpyRed row)) of
        Inl err \<Rightarrow> ([WriteHeader 500], q')
      | Inr dat \<Rightarrow>
          ([SetHeader ''Content-Type'' ''application/json'', WriteHeader 200, Write dat],
           q'))))))))"

subsection \<open>postRefresh and postRevoke\<close>

definition postRefresh ::
  "(UUID \<Rightarrow> string \<Rightarrow> Duration \<Rightarrow> error + string) \<Rightarrow> Time \<Rightarrow> Header \<Rightarrow> string \<Rightarrow> Queries \<Rightarrow>
   event list \<times> Queries" where
  "postRefresh makeJWT now headers secret q =
     (case GetBearerToken headers of
        Inl err \<Rightarrow> ([WriteHeader 401], q)
      | Inr refreshToken \<Rightarrow>
     (case GetRefreshToken now q refreshToken of
        Inl err \<Rightarrow>
          (if err = ErrNoRows then ([WriteHeader 401], q) else ([WriteHeader 500], q))
      | Inr refreshTokenRow \<Rightarrow>
     (case makeJWT (rt_UserID refreshTokenRow) secret Hour of
        Inl err \<Rightarrow> ([WriteHeader 500], q)
      | Inr tokenString \<Rightarrow>
     (case json_Marshal (tokenJSON tokenString) of
        Inl err \<Rightarrow> ([WriteHeader 500], q)
      | Inr dat \<Rightarrow>
          ([SetHeader ''Content-Type'' ''application/json'', WriteHeader 200, Write dat],
           q)))))"

text \<open>The branch of \<^verbatim>\<open>postRevoke\<close> for a failed update writes the status 500 and
  does not return: the handler goes on to its last statement.\<close>

definition postRevoke :: "Time \<Rightarrow> Header \<Rightarrow> Queries \<Rightarrow> event list \<times> Queries" where
  "postRevoke now headers q =
     (case GetBearerToken headers of
        Inl err \<Rightarrow> ([WriteHeader 401], q)
      | Inr refreshToken \<Rightarrow>
          (let (written, q') =
             (case RevokeRefreshToken now q refreshToken of
                Inl err \<Rightarrow> ([WriteHeader 500], q)
              | Inr q' \<Rightarrow> ([], q'))
           in (written @ [WriteHeader 204], q')))"

subsection \<open>deleteChirpsChirpID\<close>

definition deleteChirpsChirpID ::
  "(string \<Rightarrow> error + UUID) \<Rightarrow> (string \<Rightarrow> string \<Rightarrow> error + UUID) \<Rightarrow>
   string \<Rightarrow> Header \<Rightarrow> string \<Rightarrow> Queries \<Rightarrow> event list \<times> Queries" where
  "deleteChirpsChirpID uuidParse validateJWT pathValue headers secret q =
     (case uuidParse pathValue of
        Inl err \<Rightarrow> ([WriteHeader 400], q)
      | Inr chirpID \<Rightarrow>
     (case GetChirp q chirpID of
        Inl err \<Rightarrow>
          (if err = ErrNoRows then ([WriteHeader 404], q) else ([WriteHeader 500], q))
      | Inr chirp \<Rightarrow>
     (case GetBearerToken headers of
        Inl err \<Rightarrow> ([WriteHeader 401], q)
      | Inr tokenString \<Rightarrow>
     (case validateJWT tokenString secret of
        Inl err \<Rightarrow> ([WriteHeader 401], q)
      | Inr userID \<Rightarrow>
     (if c_UserID chirp \<noteq> userID then ([WriteHeader 403], q)
      else
     (case DeleteChirp q chirpID of
        Inl err \<Rightarrow> ([WriteHeader 500], q)
      | Inr q' \<Rightarrow> ([WriteHeader 204], q')))))))"

section \<open>Claims on the handlers\<close>

subsection \<open>Claim C10\<close>

lemma fieldsFrom_Nil: "fieldsFrom [] [] = []"
  by (subst fieldsFrom.simps) simp

lemma Fields_Nil: "Fields [] = []"
  by (simp add: Fields_def fieldsFrom_Nil)

lemma leadingSpace_blank: "leadingSpace '' '' = 1"
  by (simp add: leadingSpace_def spaceRunes_def)

lemma Fields_blank: "Fields '' '' = []"
  unfolding Fields_def
  by (subst fieldsFrom.simps) (simp add: leadingSpace_blank fieldsFrom_Nil)

lemma censor_no_fields: "Fields s = [] \<Longrightarrow> censor toLower s b = []"
  by (simp add: censor_def)

lemma cleanString_no_fields:
  "Fields s = [] \<Longrightarrow> cleanString toLower s = Inl (sliceBoundsOutOfRange 1 0)"
  by (simp add: cleanString_def badWords_def censor_no_fields Fields_Nil)

lemma fieldsFrom_end: "fieldsFrom cur [] = (if cur = [] then [] else [cur])"
  by (subst fieldsFrom.simps) simp

lemma fieldsFrom_byte:
  "s \<noteq> [] \<Longrightarrow> leadingSpace s = 0 \<Longrightarrow> fieldsFrom cur s = fieldsFrom (cur @ [hd s]) (tl s)"
  by (subst fieldsFrom.simps) simp

lemma fieldsFrom_space:
  "s \<noteq> [] \<Longrightarrow> leadingSpace s \<noteq> 0 \<Longrightarrow>
     fieldsFrom cur s = (if cur = [] then [] else [cur]) @ fieldsFrom [] (drop (leadingSpace s) s)"
  by (subst fieldsFrom.simps) simp

lemma fieldsFrom_cur: "cur \<noteq> [] \<Longrightarrow> fieldsFrom cur s \<noteq> []"
proof (induction cur s rule: fieldsFrom.induct)
  case (1 cur s)
  show ?case
  proof (cases "s = []")
    case True
    with "1.prems" show ?thesis by (simp add: fieldsFrom_end)
  next
    case False
    show ?thesis
    proof (cases "leadingSpace s = 0")
      case True
      with False "1.IH"(1) show ?thesis by (simp add: fieldsFrom_byte)
    next
      case nz: False
      with False "1.prems" show ?thesis by (simp add: fieldsFrom_space)
    qed
  qed
qed

lemma Fields_nonblank: "s \<noteq> [] \<Longrightarrow> leadingSpace s = 0 \<Longrightarrow> Fields s \<noteq> []"
  by (simp add: Fields_def fieldsFrom_byte fieldsFrom_cur)

lemma leadingSpace_space: "leadingSpace (CHR '' '' # u) = 1"
  by (simp add: leadingSpace_def spaceRunes_def)

lemma Fields_space: "Fields (CHR '' '' # u) = Fields u"
  by (simp add: Fields_def fieldsFrom_space leadingSpace_space)

lemma fieldsFrom_fields:
  "(cur \<noteq> [] \<longrightarrow> leadingSpace (cur @ s) = 0) \<Longrightarrow> w \<in> set (fieldsFrom cur s) \<Longrightarrow>
     w \<noteq> [] \<and> (\<exists>r. leadingSpace (w @ r) = 0)"
proof (induction cur s rule: fieldsFrom.induct)
  case (1 cur s)
  show ?case
  proof (cases "s = []")
    case True
    with "1.prems"(2) have "cur \<noteq> [] \<and> w = cur"
      by (simp add: fieldsFrom_end split: if_splits)
    with "1.prems"(1) True have "w \<noteq> [] \<and> leadingSpace (w @ []) = 0" by simp
    then show ?thesis by blast
  next
    case False
    show ?thesis
    proof (cases "leadingSpace s = 0")
      case True
      with False "1.prems"(2) have m: "w \<in> set (fieldsFrom (cur @ [hd s]) (tl s))"
        by (simp add: fieldsFrom_byte)
      from False have "(cur @ [hd s]) @ tl s = cur @ s" by simp
      with True "1.prems"(1) have "leadingSpace ((cur @ [hd s]) @ tl s) = 0"
        by (cases "cur = []") simp_all
      then have "cur @ [hd s] \<noteq> [] \<longrightarrow> leadingSpace ((cur @ [hd s]) @ tl s) = 0"
        by simp
      with "1.IH"(1) [OF False True] m show ?thesis by blast
    next
      case nz: False
      with False "1.prems"(2) have "(cur \<noteq> [] \<and> w = cur) \<or> w \<in> set (fieldsFrom [] (drop (leadingSpace s) s))"
        by (auto simp: fieldsFrom_space split: if_splits)
      then show ?thesis
      proof
        assume "cur \<noteq> [] \<and> w = cur"
        with "1.prems"(1) have "w \<noteq> [] \<and> leadingSpace (w @ s) = 0" by simp
        then show ?thesis by blast
      next
        assume "w \<in> set (fieldsFrom [] (drop (leadingSpace s) s))"
        with "1.IH"(2) [OF False nz] show ?thesis by simp
      qed
    qed
  qed
qed

lemma Fields_fields: "w \<in> set (Fields s) \<Longrightarrow> w \<noteq> [] \<and> (\<exists>r. leadingSpace (w @ r) = 0)"
  unfolding Fields_def using fieldsFrom_fields [of "[]" s w] by simp

lemma spaceRunes_tail: "p \<in> set spaceRunes \<Longrightarrow> CHR '' '' \<notin> set (tl p)"
  by (auto simp: spaceRunes_def)

lemma spaceRunes_star: "p \<in> set spaceRunes \<Longrightarrow> hd p \<noteq> CHR ''*''"
  by (auto simp: spaceRunes_def)

text \<open>A field followed by nothing or by a space does not start with white space.\<close>

lemma field_then_space:
  assumes "w \<noteq> []" and "leadingSpace (w @ r) = 0" and "rest = [] \<or> hd rest = CHR '' ''"
  shows "leadingSpace (w @ rest) = 0"
  unfolding leadingSpace_zero_iff
proof
  fix p
  assume p: "p \<in> set spaceRunes"
  from p assms(2) have no: "\<not> prefix p (w @ r)"
    by (simp add: leadingSpace_zero_iff)
  show "\<not> prefix p (w @ rest)"
  proof
    assume "prefix p (w @ rest)"
    then have "prefix p w \<or> (\<exists>us. p = w @ us \<and> prefix us rest)"
      by (simp add: prefix_append)
    then show False
    proof
      assume "prefix p w"
      then have "prefix p (w @ r)" by simp
      with no show False by simp
    next
      assume "\<exists>us. p = w @ us \<and> prefix us rest"
      then obtain us where us: "p = w @ us" "prefix us rest" by blast
      show False
      proof (cases us)
        case Nil
        with us have "prefix p (w @ r)" by simp
        with no show False by simp
      next
        case (Cons x xs)
        with us(2) obtain rs where "rest = x # rs"
          by (cases rest) auto
        with assms(3) have "x = CHR '' ''" by simp
        with Cons us(1) assms(1) have "CHR '' '' \<in> set (tl p)"
          by (cases w) simp_all
        with p spaceRunes_tail show False by blast
      qed
    qed
  qed
qed


lemma stars_no_space: "leadingSpace (''****'' @ rest) = 0"
  unfolding leadingSpace_zero_iff
proof
  fix p
  assume p: "p \<in> set spaceRunes"
  then have "p \<noteq> []" using spaceRunes_nonempty [of p] by auto
  with spaceRunes_star [OF p] show "\<not> prefix p (''****'' @ rest)"
    by (cases p) auto
qed

lemma censor_foldl:
  "foldl (\<lambda>cleaned w. if toLower w = b then cleaned @ '' ****'' else cleaned @ '' '' @ w) acc ws
     = acc @ concat (map (\<lambda>w. CHR '' '' # (if toLower w = b then ''****'' else w)) ws)"
  by (induction ws arbitrary: acc) simp_all

lemma censor_concat:
  "censor toLower s b = concat (map (\<lambda>w. CHR '' '' # (if toLower w = b then ''****'' else w)) (Fields s))"
  by (simp add: censor_def censor_foldl)

lemma spaced_tail:
  "concat (map (\<lambda>w. CHR '' '' # f w) ws) = [] \<or> hd (concat (map (\<lambda>w. CHR '' '' # f w) ws)) = CHR '' ''"
  by (cases ws) simp_all

lemma Fields_censor: "Fields s \<noteq> [] \<Longrightarrow> Fields (censor toLower s b) \<noteq> []"
proof -
  assume "Fields s \<noteq> []"
  then obtain w ws where f: "Fields s = w # ws"
    by (cases "Fields s") auto
  let ?f = "\<lambda>w. if toLower w = b then ''****'' else w"
  let ?tail = "concat (map (\<lambda>w. CHR '' '' # ?f w) ws)"
  from f have c: "censor toLower s b = CHR '' '' # (?f w @ ?tail)"
    by (simp add: censor_concat)
  have t: "?tail = [] \<or> hd ?tail = CHR '' ''"
    by (rule spaced_tail)
  from f have "w \<in> set (Fields s)" by simp
  then have w: "w \<noteq> [] \<and> (\<exists>r. leadingSpace (w @ r) = 0)"
    by (rule Fields_fields)
  then obtain r where r: "leadingSpace (w @ r) = 0" by blast
  have ne: "?f w @ ?tail \<noteq> []"
    using w by simp
  have "leadingSpace (?f w @ ?tail) = 0"
  proof (cases "toLower w = b")
    case True
    then show ?thesis using stars_no_space [of ?tail] by simp
  next
    case False
    from w r t have "leadingSpace (w @ ?tail) = 0"
      using field_then_space [of w r ?tail] by blast
    with False show ?thesis by simp
  qed
  with ne have "Fields (?f w @ ?tail) \<noteq> []"
    by (rule Fields_nonblank)
  with c show ?thesis
    by (simp add: Fields_space)
qed

text \<open>\<^verbatim>\<open>cleanString\<close> returns exactly on the strings that have a field: it panics on
  the empty string and on the strings of white space, and on no other string.\<close>

lemma cleanString_total_iff:
  "(\<exists>r. cleanString toLower s = Inr r) \<longleftrightarrow> Fields s \<noteq> []"
proof
  assume "\<exists>r. cleanString toLower s = Inr r"
  then show "Fields s \<noteq> []"
    using cleanString_no_fields [of s toLower] by auto
next
  assume "Fields s \<noteq> []"
  then have "Fields (censor toLower s ''kerfuffle'') \<noteq> []"
    by (rule Fields_censor)
  then have "Fields (censor toLower (censor toLower s ''kerfuffle'') ''sharbert'') \<noteq> []"
    by (rule Fields_censor)
  then have "Fields (censor toLower (censor toLower (censor toLower s ''kerfuffle'') ''sharbert'') ''fornax'') \<noteq> []"
    by (rule Fields_censor)
  then have "censor toLower (censor toLower (censor toLower s ''kerfuffle'') ''sharbert'') ''fornax'' \<noteq> []"
    using Fields_Nil by auto
  then show "\<exists>r. cleanString toLower s = Inr r"
    by (simp add: cleanString_def badWords_def)
qed

text \<open>
  C10 says that \<^verbatim>\<open>cleanString\<close> is total on every string that is not empty, strings
  of white space included, so that \<^verbatim>\<open>postChirps\<close> never panics on a body that is not
  empty. On the body of one space the string has no field, every pass of the loop leaves
  the empty string, and \<^verbatim>\<open>s[1:]\<close> panics in \<^verbatim>\<open>cleanString\<close>; the handler, which
  has let the body through because it is not the empty string, panics with it.
\<close>

theorem cleanString_blank_panics:
  "cleanString toLower '' '' = Inl (sliceBoundsOutOfRange 1 0) \<and>
   postChirps toLower (\<lambda>tokenString secret. Inr userID) newID now (Inr '' '')
     [''Authorization'' \<mapsto> [''Bearer t'']] secret q = Inl (sliceBoundsOutOfRange 1 0)"
proof -
  have c: "cleanString toLower '' '' = Inl (sliceBoundsOutOfRange 1 0)"
    by (rule cleanString_no_fields) (rule Fields_blank)
  have g: "\<exists>tok. GetBearerToken [''Authorization'' \<mapsto> [''Bearer t'']] = Inr tok"
    by (simp add: GetBearerToken_def Header_Get_def)
  then obtain tok where "GetBearerToken [''Authorization'' \<mapsto> [''Bearer t'']] = Inr tok" ..
  with c show ?thesis
    by (simp add: postChirps_def)
qed

subsection \<open>Claim C6\<close>

lemma postLogin_no_user:
  "up q \<Longrightarrow> email \<notin> set (map u_Email (users q)) \<Longrightarrow>
     postLogin checkPasswordHash makeJWT byteToken now (Inr (password, email)) secret q
       = ([WriteHeader 500], q)"
proof -
  assume u: "up q" and "email \<notin> set (map u_Email (users q))"
  then have "filter (\<lambda>u. u_Email u = email) (users q) = []"
    by (auto simp: filter_empty_conv)
  with u have "GetUserByEmail q email = Inl ErrNoRows"
    by (simp add: GetUserByEmail_def one_def)
  then show ?thesis
    by (simp add: postLogin_def)
qed

lemma postLogin_wrong_password:
  "GetUserByEmail q email = Inr row \<Longrightarrow>
   checkPasswordHash password (u_HashedPassword row) = Some err \<Longrightarrow>
     postLogin checkPasswordHash makeJWT byteToken now (Inr (password, email)) secret q
       = ([SetHeader ''Content-Type'' ''text/plain'', WriteHeader 401,
           Write (plainText ''Incorrect email or password'')], q)"
  by (simp add: postLogin_def)

text \<open>
  C6 says that a login with a wrong password and a login with an email of no user end
  alike, with the status 401 and a generic body. In \<^verbatim>\<open>postLogin\<close> the error of
  \<^verbatim>\<open>GetUserByEmail\<close> for an email of no user, \<^verbatim>\<open>sql.ErrNoRows\<close>, is handled as any
  other error of the query: the status is 500 and there is no body. Only the wrong
  password ends with 401 and the text "Incorrect email or password".
\<close>

theorem postLogin_unknown_email_500:
  "postLogin checkPasswordHash makeJWT byteToken now (Inr (password, ''bob@example.com'')) secret
     \<lparr>up = True,
      users = [\<lparr>u_ID = 1, u_CreatedAt = 0, u_UpdatedAt = 0, u_Email = ''alice@example.com'',
                u_HashedPassword = hash, u_IsChirpyRed = False\<rparr>],
      refresh_tokens = [], chirps = []\<rparr>
   = ([WriteHeader 500],
      \<lparr>up = True,
       users = [\<lparr>u_ID = 1, u_CreatedAt = 0, u_UpdatedAt = 0, u_Email = ''alice@example.com'',
                 u_HashedPassword = hash, u_IsChirpyRed = False\<rparr>],
       refresh_tokens = [], chirps = []\<rparr>) \<and>
   postLogin (\<lambda>password hash. Some ErrMismatchedHashAndPassword) makeJWT byteToken now
     (Inr (password, ''alice@example.com'')) secret
     \<lparr>up = True,
      users = [\<lparr>u_ID = 1, u_CreatedAt = 0, u_UpdatedAt = 0, u_Email = ''alice@example.com'',
                u_HashedPassword = hash, u_IsChirpyRed = False\<rparr>],
      refresh_tokens = [], chirps = []\<rparr>
   = ([SetHeader ''Content-Type'' ''text/plain'', WriteHeader 401,
       Write (plainText ''Incorrect email or password'')],
      \<lparr>up = True,
       users = [\<lparr>u_ID = 1, u_CreatedAt = 0, u_UpdatedAt = 0, u_Email = ''alice@example.com'',
                 u_HashedPassword = hash, u_IsChirpyRed = False\<rparr>],
       refresh_tokens = [], chirps = []\<rparr>)"
  by (simp add: postLogin_def GetUserByEmail_def one_def)

subsection \<open>Claim C9\<close>

text \<open>
  C9: in the revoke handler, for every request that carries an authorization header
  (one whose value is not empty, so that \<^verbatim>\<open>GetBearerToken\<close> returns a token), the last
  call on the response writer is \<^verbatim>\<open>WriteHeader(204)\<close>. That holds on the path where
  the update fails too: the status 500 has been written before, and the handler did not
  return.
\<close>

theorem postRevoke_always_writes_204:
  assumes "Header_Get headers ''Authorization'' \<noteq> []"
  shows "(\<exists>written q'. postRevoke now headers q = (written @ [WriteHeader 204], q')) \<and>
         (\<not> up q \<longrightarrow> postRevoke now headers q = ([WriteHeader 500, WriteHeader 204], q)) \<and>
         (up q \<longrightarrow> (\<exists>q'. postRevoke now headers q = ([WriteHeader 204], q')))"
proof -
  from assms obtain tok where g: "GetBearerToken headers = Inr tok"
    by (auto simp: GetBearerToken_def Let_def)
  show ?thesis
  proof (cases "up q")
    case True
    with g show ?thesis
      by (simp add: postRevoke_def RevokeRefreshToken_def)
  next
    case False
    with g show ?thesis
      by (simp add: postRevoke_def RevokeRefreshToken_def)
  qed
qed

theorem postRevoke_always_writes_204_witness:
  "Header_Get [''Authorization'' \<mapsto> [''Bearer abc'']] ''Authorization'' \<noteq> [] \<and>
   postRevoke 5 [''Authorization'' \<mapsto> [''Bearer abc'']]
     \<lparr>up = False, users = [], refresh_tokens = [], chirps = []\<rparr>
   = ([WriteHeader 500, WriteHeader 204],
      \<lparr>up = False, users = [], refresh_tokens = [], chirps = []\<rparr>) \<and>
   (\<exists>q'. postRevoke 5 [''Authorization'' \<mapsto> [''Bearer abc'']]
     \<lparr>up = True, users = [], refresh_tokens = [], chirps = []\<rparr> = ([WriteHeader 204], q'))"
proof -
  have h: "Header_Get [''Authorization'' \<mapsto> [''Bearer abc'']] ''Authorization'' \<noteq> []"
    by (simp add: Header_Get_def)
  from h postRevoke_always_writes_204 [OF h, of 5 "\<lparr>up = False, users = [], refresh_tokens = [], chirps = []\<rparr>"]
    postRevoke_always_writes_204 [OF h, of 5 "\<lparr>up = True, users = [], refresh_tokens = [], chirps = []\<rparr>"]
  show ?thesis by simp
qed

subsection \<open>Claim C3\<close>

text \<open>
  C3: a redemption leaves the stored refresh tokens as they were. The refresh handler
  reads the relation and writes nothing: whatever the request, the database after the
  call is the database before it, so every field of every row, \<open>expires_at\<close> and
  \<open>revoked_at\<close> among them, is unchanged; and when it answers 200, all it has done is
  to mint an access token for the user of a stored row and to return it.
\<close>

theorem postRefresh_leaves_rows:
  "snd (postRefresh makeJWT now headers secret q) = q \<and>
   refresh_tokens (snd (postRefresh makeJWT now headers secret q)) = refresh_tokens q \<and>
   (statusSent (fst (postRefresh makeJWT now headers secret q)) = Some 200 \<longrightarrow>
      (\<exists>row tokenString.
         row \<in> set (refresh_tokens q) \<and> GetBearerToken headers = Inr (rt_Token row) \<and>
         makeJWT (rt_UserID row) secret Hour = Inr tokenString \<and>
         fst (postRefresh makeJWT now headers secret q) =
           [SetHeader ''Content-Type'' ''application/json'', WriteHeader 200,
            Write (tokenJSON tokenString)]))"
proof -
  have a: "snd (postRefresh makeJWT now headers secret q) = q"
    by (simp add: postRefresh_def json_Marshal_def split: sum.splits)
  have b: "statusSent (fst (postRefresh makeJWT now headers secret q)) = Some 200 \<longrightarrow>
      (\<exists>row tokenString.
         row \<in> set (refresh_tokens q) \<and> GetBearerToken headers = Inr (rt_Token row) \<and>
         makeJWT (rt_UserID row) secret Hour = Inr tokenString \<and>
         fst (postRefresh makeJWT now headers secret q) =
           [SetHeader ''Content-Type'' ''application/json'', WriteHeader 200,
            Write (tokenJSON tokenString)])"
  proof
    assume ok: "statusSent (fst (postRefresh makeJWT now headers secret q)) = Some 200"
    then obtain t where t: "GetBearerToken headers = Inr t"
      by (cases "GetBearerToken headers") (auto simp: postRefresh_def)
    with ok obtain row where row: "GetRefreshToken now q t = Inr row"
      by (cases "GetRefreshToken now q t") (auto simp: postRefresh_def split: if_splits)
    with ok t obtain tokenString where m: "makeJWT (rt_UserID row) secret Hour = Inr tokenString"
      by (cases "makeJWT (rt_UserID row) secret Hour") (auto simp: postRefresh_def)
    from row have "row \<in> set (refresh_tokens q)" "rt_Token row = t"
      by (auto simp: GetRefreshToken_def split: if_splits dest: one_filter_Inr)
    with t row m show "\<exists>row tokenString.
         row \<in> set (refresh_tokens q) \<and> GetBearerToken headers = Inr (rt_Token row) \<and>
         makeJWT (rt_UserID row) secret Hour = Inr tokenString \<and>
         fst (postRefresh makeJWT now headers secret q) =
           [SetHeader ''Content-Type'' ''application/json'', WriteHeader 200,
            Write (tokenJSON tokenString)]"
      by (auto simp: postRefresh_def json_Marshal_def)
  qed
  from a b show ?thesis by simp
qed

theorem postRefresh_leaves_rows_witness:
  "statusSent (fst (postRefresh (\<lambda>userID secret expiresIn. Inr ''jwt'') 10
      [''Authorization'' \<mapsto> [''Bearer abc'']] ''secret''
      \<lparr>up = True, users = [],
       refresh_tokens = [\<lparr>rt_Token = ''abc'', rt_CreatedAt = 0, rt_UpdatedAt = 0, rt_UserID = 7,
                          rt_ExpiresAt = 100, rt_RevokedAt = None\<rparr>],
       chirps = []\<rparr>)) = Some 200 \<and>
   snd (postRefresh (\<lambda>userID secret expiresIn. Inr ''jwt'') 10
      [''Authorization'' \<mapsto> [''Bearer abc'']] ''secret''
      \<lparr>up = True, users = [],
       refresh_tokens = [\<lparr>rt_Token = ''abc'', rt_CreatedAt = 0, rt_UpdatedAt = 0, rt_UserID = 7,
                          rt_ExpiresAt = 100, rt_RevokedAt = None\<rparr>],
       chirps = []\<rparr>)
   = \<lparr>up = True, users = [],
       refresh_tokens = [\<lparr>rt_Token = ''abc'', rt_CreatedAt = 0, rt_UpdatedAt = 0, rt_UserID = 7,
                          rt_ExpiresAt = 100, rt_RevokedAt = None\<rparr>],
       chirps = []\<rparr> \<and>
   fst (postRefresh (\<lambda>userID secret expiresIn. Inr ''jwt'') 10
      [''Authorization'' \<mapsto> [''Bearer abc'']] ''secret''
      \<lparr>up = True, users = [],
       refresh_tokens = [\<lparr>rt_Token = ''abc'', rt_CreatedAt = 0, rt_UpdatedAt = 0, rt_UserID = 7,
                          rt_ExpiresAt = 100, rt_RevokedAt = None\<rparr>],
       chirps = []\<rparr>)
   = [SetHeader ''Content-Type'' ''application/json'', WriteHeader 200, Write (tokenJSON ''jwt'')]"
proof -
  let ?q = "\<lparr>up = True, users = [],
       refresh_tokens = [\<lparr>rt_Token = ''abc'', rt_CreatedAt = 0, rt_UpdatedAt = 0, rt_UserID = 7,
                          rt_ExpiresAt = 100, rt_RevokedAt = None\<rparr>],
       chirps = []\<rparr>"
  let ?r = "postRefresh (\<lambda>userID secret expiresIn. Inr ''jwt'') 10
      [''Authorization'' \<mapsto> [''Bearer abc'']] ''secret'' ?q"
  have ok: "statusSent (fst ?r) = Some 200"
    by (simp add: postRefresh_def GetBearerToken_abc GetRefreshToken_def one_def json_Marshal_def)
  with postRefresh_leaves_rows [of "\<lambda>userID secret expiresIn. Inr ''jwt''" 10
      "[''Authorization'' \<mapsto> [''Bearer abc'']]" "''secret''" ?q]
  show ?thesis by auto
qed

subsection \<open>Claim C1\<close>

text \<open>A row that can be redeemed with the token \<open>t\<close> at the time \<open>now\<close>.\<close>

definition usable :: "Time \<Rightarrow> string \<Rightarrow> RefreshToken \<Rightarrow> bool" where
  "usable now t r \<longleftrightarrow> rt_Token r = t \<and> rt_RevokedAt r = None \<and> now < rt_ExpiresAt r"

lemma GetRefreshToken_up:
  "up q \<Longrightarrow> GetRefreshToken now q t = one (filter (usable now t) (refresh_tokens q))"
proof -
  have "usable now t = (\<lambda>r. rt_Token r = t \<and> rt_RevokedAt r = None \<and> rt_ExpiresAt r > now)"
    by (rule ext) (simp add: usable_def)
  then show "up q \<Longrightarrow> ?thesis"
    by (simp add: GetRefreshToken_def)
qed

lemma GetRefreshToken_Inr_iff:
  "up q \<Longrightarrow> (\<exists>row. GetRefreshToken now q t = Inr row) \<longleftrightarrow>
     (\<exists>r \<in> set (refresh_tokens q). usable now t r)"
  by (simp add: GetRefreshToken_up one_filter_Inr_iff)

lemma GetRefreshToken_Inr_row:
  "up q \<Longrightarrow> GetRefreshToken now q t = Inr row \<Longrightarrow>
     row \<in> set (refresh_tokens q) \<and> usable now t row"
  using one_filter_Inr [of "usable now t" "refresh_tokens q" row]
  by (simp add: GetRefreshToken_up)

lemma GetRefreshToken_no_rows:
  "up q \<Longrightarrow> \<not> (\<exists>r \<in> set (refresh_tokens q). usable now t r) \<Longrightarrow>
     GetRefreshToken now q t = Inl ErrNoRows"
  by (simp add: GetRefreshToken_up one_Inl_iff filter_empty_conv)

lemma GetRefreshToken_never_Inr:
  "\<not> (\<exists>r \<in> set (refresh_tokens q). usable now t r) \<Longrightarrow> GetRefreshToken now q t \<noteq> Inr row"
proof (cases "up q")
  case True
  assume "\<not> (\<exists>r \<in> set (refresh_tokens q). usable now t r)"
  with True show ?thesis by (simp add: GetRefreshToken_no_rows)
next
  case False
  then show ?thesis by (simp add: GetRefreshToken_def)
qed

lemma distinct_token_row:
  "distinct (map rt_Token rows) \<Longrightarrow> row \<in> set rows \<Longrightarrow> r \<in> set rows \<Longrightarrow>
     rt_Token r = rt_Token row \<Longrightarrow> r = row"
  by (metis distinct_map inj_onD)

text \<open>
  C1: for every refresh token string \<open>t\<close>, the lookup of the refresh flow returns a row,
  and with it the user id, if and only if a row for \<open>t\<close> is stored whose \<open>revoked_at\<close>
  is null and whose \<open>expires_at\<close> is after the current time; the row returned is such
  a row, the only row for \<open>t\<close> when the tokens stored are distinct. In every other
  state, whether \<open>t\<close> was never issued, is revoked or has expired, the lookup returns
  the same \<^verbatim>\<open>sql.ErrNoRows\<close> and the handler answers with the same bare status 401.
  The database is taken to be reachable.
\<close>

theorem GetRefreshToken_iff_usable:
  assumes "up q"
  shows "((\<exists>row. GetRefreshToken now q t = Inr row) \<longleftrightarrow>
            (\<exists>r \<in> set (refresh_tokens q). usable now t r)) \<and>
         (\<forall>row. GetRefreshToken now q t = Inr row \<longrightarrow>
            row \<in> set (refresh_tokens q) \<and> usable now t row \<and>
            (distinct (map rt_Token (refresh_tokens q)) \<longrightarrow>
               (\<forall>r \<in> set (refresh_tokens q). rt_Token r = t \<longrightarrow> r = row)) \<and>
            (\<forall>tokenString. GetBearerToken headers = Inr t \<and>
               makeJWT (rt_UserID row) secret Hour = Inr tokenString \<longrightarrow>
               postRefresh makeJWT now headers secret q =
                 ([SetHeader ''Content-Type'' ''application/json'', WriteHeader 200,
                   Write (tokenJSON tokenString)], q))) \<and>
         (\<not> (\<exists>r \<in> set (refresh_tokens q). usable now t r) \<longrightarrow>
            GetRefreshToken now q t = Inl ErrNoRows \<and>
            (GetBearerToken headers = Inr t \<longrightarrow>
               postRefresh makeJWT now headers secret q = ([WriteHeader 401], q)))"
proof -
  have a: "(\<exists>row. GetRefreshToken now q t = Inr row) \<longleftrightarrow>
            (\<exists>r \<in> set (refresh_tokens q). usable now t r)"
    using assms by (rule GetRefreshToken_Inr_iff)
  have b: "\<forall>row. GetRefreshToken now q t = Inr row \<longrightarrow>
            row \<in> set (refresh_tokens q) \<and> usable now t row \<and>
            (distinct (map rt_Token (refresh_tokens q)) \<longrightarrow>
               (\<forall>r \<in> set (refresh_tokens q). rt_Token r = t \<longrightarrow> r = row)) \<and>
            (\<forall>tokenString. GetBearerToken headers = Inr t \<and>
               makeJWT (rt_UserID row) secret Hour = Inr tokenString \<longrightarrow>
               postRefresh makeJWT now headers secret q =
                 ([SetHeader ''Content-Type'' ''application/json'', WriteHeader 200,
                   Write (tokenJSON tokenString)], q))"
  proof (intro allI impI)
    fix row
    assume r: "GetRefreshToken now q t = Inr row"
    with assms have m: "row \<in> set (refresh_tokens q) \<and> usable now t row"
      by (rule GetRefreshToken_Inr_row)
    then have tok: "rt_Token row = t"
      by (simp add: usable_def)
    have u: "distinct (map rt_Token (refresh_tokens q)) \<longrightarrow>
               (\<forall>r \<in> set (refresh_tokens q). rt_Token r = t \<longrightarrow> r = row)"
    proof (intro impI ballI)
      fix r
      assume "distinct (map rt_Token (refresh_tokens q))" "r \<in> set (refresh_tokens q)"
        "rt_Token r = t"
      with m tok show "r = row"
        using distinct_token_row [of "refresh_tokens q" row r] by simp
    qed
    have h: "\<forall>tokenString. GetBearerToken headers = Inr t \<and>
               makeJWT (rt_UserID row) secret Hour = Inr tokenString \<longrightarrow>
               postRefresh makeJWT now headers secret q =
                 ([SetHeader ''Content-Type'' ''application/json'', WriteHeader 200,
                   Write (tokenJSON tokenString)], q)"
      using r by (simp add: postRefresh_def json_Marshal_def)
    from m have m1: "row \<in> set (refresh_tokens q)" and m2: "usable now t row"
      by simp_all
    show "row \<in> set (refresh_tokens q) \<and> usable now t row \<and>
            (distinct (map rt_Token (refresh_tokens q)) \<longrightarrow>
               (\<forall>r \<in> set (refresh_tokens q). rt_Token r = t \<longrightarrow> r = row)) \<and>
            (\<forall>tokenString. GetBearerToken headers = Inr t \<and>
               makeJWT (rt_UserID row) secret Hour = Inr tokenString \<longrightarrow>
               postRefresh makeJWT now headers secret q =
                 ([SetHeader ''Content-Type'' ''application/json'', WriteHeader 200,
                   Write (tokenJSON tokenString)], q))"
      by (intro conjI) (rule m1, rule m2, rule u, rule h)
  qed
  have c: "\<not> (\<exists>r \<in> set (refresh_tokens q). usable now t r) \<longrightarrow>
            GetRefreshToken now q t = Inl ErrNoRows \<and>
            (GetBearerToken headers = Inr t \<longrightarrow>
               postRefresh makeJWT now headers secret q = ([WriteHeader 401], q))"
  proof
    assume "\<not> (\<exists>r \<in> set (refresh_tokens q). usable now t r)"
    with assms have e: "GetRefreshToken now q t = Inl ErrNoRows"
      by (rule GetRefreshToken_no_rows)
    then show "GetRefreshToken now q t = Inl ErrNoRows \<and>
            (GetBearerToken headers = Inr t \<longrightarrow>
               postRefresh makeJWT now headers secret q = ([WriteHeader 401], q))"
      by (simp add: postRefresh_def)
  qed
  show ?thesis
    by (rule conjI, rule a, rule conjI, rule b, rule c)
qed

text \<open>A store of refresh tokens for the examples: one token, issued to user 7, that
  expires at time 100.\<close>

definition liveRow :: RefreshToken where
  "liveRow = \<lparr>rt_Token = ''abc'', rt_CreatedAt = 0, rt_UpdatedAt = 0, rt_UserID = 7,
               rt_ExpiresAt = 100, rt_RevokedAt = None\<rparr>"

definition store :: "RefreshToken list \<Rightarrow> Queries" where
  "store rows = \<lparr>up = True, users = [], refresh_tokens = rows, chirps = []\<rparr>"

theorem GetRefreshToken_iff_usable_witness:
  "GetRefreshToken 10 (store [liveRow]) ''abc'' = Inr liveRow \<and>
   postRefresh (\<lambda>userID secret expiresIn. Inr ''jwt'') 10
     [''Authorization'' \<mapsto> [''Bearer abc'']] ''secret'' (store [liveRow])
     = ([SetHeader ''Content-Type'' ''application/json'', WriteHeader 200,
         Write (tokenJSON ''jwt'')], store [liveRow]) \<and>
   GetRefreshToken 100 (store [liveRow]) ''abc'' = Inl ErrNoRows \<and>
   postRefresh (\<lambda>userID secret expiresIn. Inr ''jwt'') 100
     [''Authorization'' \<mapsto> [''Bearer abc'']] ''secret'' (store [liveRow])
     = ([WriteHeader 401], store [liveRow]) \<and>
   GetRefreshToken 10 (store [liveRow\<lparr>rt_RevokedAt := Some 5\<rparr>]) ''abc'' = Inl ErrNoRows \<and>
   postRefresh (\<lambda>userID secret expiresIn. Inr ''jwt'') 10
     [''Authorization'' \<mapsto> [''Bearer abc'']] ''secret'' (store [liveRow\<lparr>rt_RevokedAt := Some 5\<rparr>])
     = ([WriteHeader 401], store [liveRow\<lparr>rt_RevokedAt := Some 5\<rparr>]) \<and>
   GetRefreshToken 10 (store []) ''abc'' = Inl ErrNoRows \<and>
   postRefresh (\<lambda>userID secret expiresIn. Inr ''jwt'') 10
     [''Authorization'' \<mapsto> [''Bearer abc'']] ''secret'' (store [])
     = ([WriteHeader 401], store [])"
proof -
  let ?h = "[''Authorization'' \<mapsto> [''Bearer abc'']]"
  let ?mk = "\<lambda>(userID :: UUID) (secret :: string) (expiresIn :: Duration). Inr ''jwt'' :: error + string"
  have up: "\<And>rows. up (store rows)"
    by (simp add: store_def)
  have live: "\<exists>r \<in> set (refresh_tokens (store [liveRow])). usable 10 ''abc'' r"
    by (simp add: store_def liveRow_def usable_def)
  have expired: "\<not> (\<exists>r \<in> set (refresh_tokens (store [liveRow])). usable 100 ''abc'' r)"
    by (simp add: store_def liveRow_def usable_def)
  have revoked: "\<not> (\<exists>r \<in> set (refresh_tokens (store [liveRow\<lparr>rt_RevokedAt := Some 5\<rparr>])).
      usable 10 ''abc'' r)"
    by (simp add: store_def liveRow_def usable_def)
  have unknown: "\<not> (\<exists>r \<in> set (refresh_tokens (store [])). usable 10 ''abc'' r)"
    by (simp add: store_def)
  note a = GetRefreshToken_iff_usable [OF up, of 10 "[liveRow]" "''abc''" ?h ?mk "''secret''"]
  note b = GetRefreshToken_iff_usable [OF up, of 100 "[liveRow]" "''abc''" ?h ?mk "''secret''"]
  note c = GetRefreshToken_iff_usable [OF up, of 10 "[liveRow\<lparr>rt_RevokedAt := Some 5\<rparr>]" "''abc''" ?h ?mk "''secret''"]
  note d = GetRefreshToken_iff_usable [OF up, of 10 "[]" "''abc''" ?h ?mk "''secret''"]
  from a live obtain row where row: "GetRefreshToken 10 (store [liveRow]) ''abc'' = Inr row"
    by blast
  with a have "row \<in> set (refresh_tokens (store [liveRow]))"
    by blast
  then have "row = liveRow"
    by (simp add: store_def)
  with row have a1: "GetRefreshToken 10 (store [liveRow]) ''abc'' = Inr liveRow"
    by simp
  with a have a2: "postRefresh ?mk 10 ?h ''secret'' (store [liveRow])
     = ([SetHeader ''Content-Type'' ''application/json'', WriteHeader 200,
         Write (tokenJSON ''jwt'')], store [liveRow])"
    by (simp add: GetBearerToken_abc)
  from b expired have b1: "GetRefreshToken 100 (store [liveRow]) ''abc'' = Inl ErrNoRows \<and>
      postRefresh ?mk 100 ?h ''secret'' (store [liveRow]) = ([WriteHeader 401], store [liveRow])"
    by (simp add: GetBearerToken_abc)
  from c revoked have c1: "GetRefreshToken 10 (store [liveRow\<lparr>rt_RevokedAt := Some 5\<rparr>]) ''abc'' = Inl ErrNoRows \<and>
      postRefresh ?mk 10 ?h ''secret'' (store [liveRow\<lparr>rt_RevokedAt := Some 5\<rparr>])
      = ([WriteHeader 401], store [liveRow\<lparr>rt_RevokedAt := Some 5\<rparr>])"
    by (simp add: GetBearerToken_abc)
  from d unknown have d1: "GetRefreshToken 10 (store []) ''abc'' = Inl ErrNoRows \<and>
      postRefresh ?mk 10 ?h ''secret'' (store []) = ([WriteHeader 401], store [])"
    by (simp add: GetBearerToken_abc)
  from a1 a2 b1 c1 d1 show ?thesis
    by simp
qed

subsection \<open>Claim C2\<close>

text \<open>
  The operations on the relation of refresh tokens, each with the time of its call:
  the insertion of the login handler, the lookup of the refresh handler and the update
  of the revoke handler. No operation deletes a row. An operation that fails leaves the
  database as it was.
\<close>

datatype storeOp =
    Issue Time string UUID
  | Redeem Time string
  | Revoke Time string

fun applyOp :: "Queries \<Rightarrow> storeOp \<Rightarrow> Queries" where
  "applyOp q (Issue now token userID) =
     (case CreateRefreshToken now q token userID of Inl err \<Rightarrow> q | Inr (row, q') \<Rightarrow> q')"
| "applyOp q (Redeem now token) = q"
| "applyOp q (Revoke now token) =
     (case RevokeRefreshToken now q token of Inl err \<Rightarrow> q | Inr q' \<Rightarrow> q')"

definition run :: "storeOp list \<Rightarrow> Queries \<Rightarrow> Queries" where
  "run ops q = foldl applyOp q ops"

text \<open>The token \<open>t\<close> is stored and every row for it is revoked.\<close>

definition revoked :: "string \<Rightarrow> Queries \<Rightarrow> bool" where
  "revoked t q \<longleftrightarrow>
     t \<in> set (map rt_Token (refresh_tokens q)) \<and>
     (\<forall>r \<in> set (refresh_tokens q). rt_Token r = t \<longrightarrow> rt_RevokedAt r \<noteq> None)"

lemma CreateRefreshToken_Inr:
  "CreateRefreshToken now q token userID = Inr (row, q') \<Longrightarrow>
     token \<notin> set (map rt_Token (refresh_tokens q)) \<and> rt_Token row = token \<and>
     q' = q\<lparr>refresh_tokens := refresh_tokens q @ [row]\<rparr>"
  by (auto simp: CreateRefreshToken_def violation_def Let_def split: if_splits option.splits)

lemma RevokeRefreshToken_Inr:
  "RevokeRefreshToken now q token = Inr q' \<Longrightarrow>
     q' = q\<lparr>refresh_tokens := map (revokeRow now token) (refresh_tokens q)\<rparr>"
  by (auto simp: RevokeRefreshToken_def split: if_splits)

lemma applyOp_up: "up (applyOp q op) = up q"
proof (cases op)
  case (Issue now token userID)
  show ?thesis
  proof (cases "CreateRefreshToken now q token userID")
    case (Inl err)
    with Issue show ?thesis by simp
  next
    case (Inr res)
    obtain row q' where "res = (row, q')" by (cases res)
    with Inr Issue CreateRefreshToken_Inr [of now q token userID row q'] show ?thesis
      by simp
  qed
next
  case (Redeem now token)
  then show ?thesis by simp
next
  case (Revoke now token)
  show ?thesis
  proof (cases "RevokeRefreshToken now q token")
    case (Inl err)
    with Revoke show ?thesis by simp
  next
    case (Inr q')
    with Revoke RevokeRefreshToken_Inr [of now q token q'] show ?thesis
      by simp
  qed
qed

lemma run_Nil: "run [] q = q"
  by (simp add: run_def)

lemma run_Cons: "run (op # ops) q = run ops (applyOp q op)"
  by (simp add: run_def)

lemma run_up: "up (run ops q) = up q"
  by (induction ops arbitrary: q) (simp_all add: run_Nil run_Cons applyOp_up)

lemma revoked_append:
  "revoked t q \<Longrightarrow> rt_Token row \<noteq> t \<Longrightarrow>
     revoked t (q\<lparr>refresh_tokens := refresh_tokens q @ [row]\<rparr>)"
  by (auto simp: revoked_def)

lemma revoked_revokeRow:
  "revoked t q \<Longrightarrow> revoked t (q\<lparr>refresh_tokens := map (revokeRow now token) (refresh_tokens q)\<rparr>)"
proof -
  assume r: "revoked t q"
  have "\<forall>r \<in> set (map (revokeRow now token) (refresh_tokens q)).
          rt_Token r = t \<longrightarrow> rt_RevokedAt r \<noteq> None"
  proof
    fix r'
    assume "r' \<in> set (map (revokeRow now token) (refresh_tokens q))"
    then obtain r0 where r0: "r0 \<in> set (refresh_tokens q)" "r' = revokeRow now token r0"
      by auto
    show "rt_Token r' = t \<longrightarrow> rt_RevokedAt r' \<noteq> None"
    proof
      assume "rt_Token r' = t"
      with r0 have "rt_Token r0 = t" by (simp add: revokeRow_token)
      with r r0 have "rt_RevokedAt r0 \<noteq> None" by (simp add: revoked_def)
      with r0 show "rt_RevokedAt r' \<noteq> None" by (simp add: revokeRow_stays_revoked)
    qed
  qed
  moreover from r have "t \<in> set (map rt_Token (map (revokeRow now token) (refresh_tokens q)))"
    unfolding revokeRow_tokens by (simp add: revoked_def)
  ultimately show ?thesis
    by (simp add: revoked_def)
qed

lemma applyOp_revoked: "revoked t q \<Longrightarrow> revoked t (applyOp q op)"
proof (cases op)
  case (Issue now token userID)
  assume r: "revoked t q"
  show ?thesis
  proof (cases "CreateRefreshToken now q token userID")
    case (Inl err)
    with Issue r show ?thesis by simp
  next
    case (Inr res)
    obtain row q' where res: "res = (row, q')" by (cases res)
    with Inr have c: "token \<notin> set (map rt_Token (refresh_tokens q)) \<and> rt_Token row = token \<and>
        q' = q\<lparr>refresh_tokens := refresh_tokens q @ [row]\<rparr>"
      using CreateRefreshToken_Inr [of now q token userID row q'] by simp
    with r have "rt_Token row \<noteq> t"
      by (auto simp: revoked_def)
    with r have "revoked t (q\<lparr>refresh_tokens := refresh_tokens q @ [row]\<rparr>)"
      by (rule revoked_append)
    with c Inr res Issue show ?thesis by simp
  qed
next
  case (Redeem now token)
  assume "revoked t q"
  with Redeem show ?thesis by simp
next
  case (Revoke now token)
  assume r: "revoked t q"
  show ?thesis
  proof (cases "RevokeRefreshToken now q token")
    case (Inl err)
    with Revoke r show ?thesis by simp
  next
    case (Inr q')
    with Revoke RevokeRefreshToken_Inr [of now q token q'] revoked_revokeRow [OF r, of now token]
    show ?thesis by simp
  qed
qed

lemma run_revoked: "revoked t q \<Longrightarrow> revoked t (run ops q)"
  by (induction ops arbitrary: q) (simp_all add: run_Nil run_Cons applyOp_revoked)

lemma revoked_rows_not_usable:
  "\<forall>r \<in> set (refresh_tokens q). rt_Token r = t \<longrightarrow> rt_RevokedAt r \<noteq> None \<Longrightarrow>
     \<not> (\<exists>r \<in> set (refresh_tokens q). usable now t r)"
  by (auto simp: usable_def)

lemma revokeRow_all_revoked:
  "\<forall>r \<in> set (map (revokeRow now t) rows). rt_Token r = t \<longrightarrow> rt_RevokedAt r \<noteq> None"
  by (induction rows) (auto simp: revokeRow_def)

text \<open>
  C2: on a reachable database, revoking a token always succeeds, whether the token is
  live, already revoked or was never issued, and the revoke handler answers 204. In the
  database it leaves, the lookup of the token returns \<^verbatim>\<open>sql.ErrNoRows\<close> at every
  time, however far its \<open>expires_at\<close> lies ahead, and the refresh handler answers 401.
  For a token that is stored this stays so after any sequence of later insertions,
  lookups and revocations, of this token or of others.
\<close>

theorem Revoke_is_final:
  assumes "up q"
  shows "\<exists>q'. RevokeRefreshToken now q t = Inr q' \<and>
           (GetBearerToken headers = Inr t \<longrightarrow> postRevoke now headers q = ([WriteHeader 204], q')) \<and>
           (\<forall>later. GetRefreshToken later q' t = Inl ErrNoRows) \<and>
           (\<forall>later. GetBearerToken headers = Inr t \<longrightarrow>
              postRefresh makeJWT later headers secret q' = ([WriteHeader 401], q')) \<and>
           (t \<in> set (map rt_Token (refresh_tokens q)) \<longrightarrow>
              (\<forall>ops later. GetRefreshToken later (run ops q') t = Inl ErrNoRows))"
proof -
  define q' where "q' = q\<lparr>refresh_tokens := map (revokeRow now t) (refresh_tokens q)\<rparr>"
  from assms have rv: "RevokeRefreshToken now q t = Inr q'"
    by (simp add: RevokeRefreshToken_def q'_def)
  from assms have up': "up q'"
    by (simp add: q'_def)
  have rows: "\<forall>r \<in> set (refresh_tokens q'). rt_Token r = t \<longrightarrow> rt_RevokedAt r \<noteq> None"
    using revokeRow_all_revoked [of now t "refresh_tokens q"] by (simp add: q'_def)
  have h: "GetBearerToken headers = Inr t \<longrightarrow> postRevoke now headers q = ([WriteHeader 204], q')"
    using rv by (simp add: postRevoke_def)
  have g: "\<forall>later. GetRefreshToken later q' t = Inl ErrNoRows"
  proof
    fix later
    from rows have "\<not> (\<exists>r \<in> set (refresh_tokens q'). usable later t r)"
      by (rule revoked_rows_not_usable)
    with up' show "GetRefreshToken later q' t = Inl ErrNoRows"
      by (rule GetRefreshToken_no_rows)
  qed
  then have p: "\<forall>later. GetBearerToken headers = Inr t \<longrightarrow>
              postRefresh makeJWT later headers secret q' = ([WriteHeader 401], q')"
    by (simp add: postRefresh_def)
  have m: "t \<in> set (map rt_Token (refresh_tokens q)) \<longrightarrow>
              (\<forall>ops later. GetRefreshToken later (run ops q') t = Inl ErrNoRows)"
  proof (intro impI allI)
    fix ops later
    assume "t \<in> set (map rt_Token (refresh_tokens q))"
    moreover have "map rt_Token (refresh_tokens q') = map rt_Token (refresh_tokens q)"
      unfolding q'_def using revokeRow_tokens [of now t "refresh_tokens q"] by simp
    ultimately have "t \<in> set (map rt_Token (refresh_tokens q'))"
      by simp
    with rows have "revoked t q'"
      by (simp add: revoked_def)
    then have "revoked t (run ops q')"
      by (rule run_revoked)
    then have "\<forall>r \<in> set (refresh_tokens (run ops q')). rt_Token r = t \<longrightarrow> rt_RevokedAt r \<noteq> None"
      by (simp add: revoked_def)
    then have n: "\<not> (\<exists>r \<in> set (refresh_tokens (run ops q')). usable later t r)"
      by (rule revoked_rows_not_usable)
    from up' have "up (run ops q')"
      by (simp add: run_up)
    from this n show "GetRefreshToken later (run ops q') t = Inl ErrNoRows"
      by (rule GetRefreshToken_no_rows)
  qed
  show ?thesis
    by (rule exI [of _ q'], intro conjI) (rule rv, rule h, rule g, rule p, rule m)
qed

theorem Revoke_is_final_witness:
  "\<exists>q'. RevokeRefreshToken 20 (store [liveRow]) ''abc'' = Inr q' \<and>
      postRevoke 20 [''Authorization'' \<mapsto> [''Bearer abc'']] (store [liveRow]) = ([WriteHeader 204], q') \<and>
      GetRefreshToken 30 q' ''abc'' = Inl ErrNoRows \<and>
      postRefresh (\<lambda>userID secret expiresIn. Inr ''jwt'') 30
        [''Authorization'' \<mapsto> [''Bearer abc'']] ''secret'' q' = ([WriteHeader 401], q') \<and>
      GetRefreshToken 30 (run [Issue 25 ''abc'' 7, Revoke 26 ''abc'', Redeem 27 ''abc''] q') ''abc''
        = Inl ErrNoRows"
proof -
  let ?h = "[''Authorization'' \<mapsto> [''Bearer abc'']]"
  let ?mk = "\<lambda>(userID :: UUID) (secret :: string) (expiresIn :: Duration). Inr ''jwt'' :: error + string"
  let ?ops = "[Issue 25 ''abc'' 7, Revoke 26 ''abc'', Redeem 27 ''abc'']"
  have u: "up (store [liveRow])"
    by (simp add: store_def)
  have t: "''abc'' \<in> set (map rt_Token (refresh_tokens (store [liveRow])))"
    by (simp add: store_def liveRow_def)
  from Revoke_is_final [OF u, of 20 "''abc''" ?h ?mk "''secret''"]
  obtain q' where r: "RevokeRefreshToken 20 (store [liveRow]) ''abc'' = Inr q'"
    and h: "GetBearerToken ?h = Inr ''abc'' \<longrightarrow> postRevoke 20 ?h (store [liveRow]) = ([WriteHeader 204], q')"
    and g: "\<forall>later. GetRefreshToken later q' ''abc'' = Inl ErrNoRows"
    and p: "\<forall>later. GetBearerToken ?h = Inr ''abc'' \<longrightarrow>
              postRefresh ?mk later ?h ''secret'' q' = ([WriteHeader 401], q')"
    and m: "''abc'' \<in> set (map rt_Token (refresh_tokens (store [liveRow]))) \<longrightarrow>
              (\<forall>ops later. GetRefreshToken later (run ops q') ''abc'' = Inl ErrNoRows)"
    by blast
  from h have h': "postRevoke 20 ?h (store [liveRow]) = ([WriteHeader 204], q')"
    by (simp add: GetBearerToken_abc)
  from g have g': "GetRefreshToken 30 q' ''abc'' = Inl ErrNoRows"
    by (rule spec)
  from p have p': "postRefresh ?mk 30 ?h ''secret'' q' = ([WriteHeader 401], q')"
    by (simp add: GetBearerToken_abc)
  from m t have "\<forall>ops later. GetRefreshToken later (run ops q') ''abc'' = Inl ErrNoRows"
    by (rule mp)
  then have m': "GetRefreshToken 30 (run ?ops q') ''abc'' = Inl ErrNoRows"
    by blast
  show ?thesis
    by (rule exI [of _ q'], intro conjI) (rule r, rule h', rule g', rule p', rule m')
qed

subsection \<open>Claim C7\<close>

lemma GetChirp_missing:
  "up q \<Longrightarrow> chirpID \<notin> set (map c_ID (chirps q)) \<Longrightarrow> GetChirp q chirpID = Inl ErrNoRows"
  by (auto simp: GetChirp_def one_Inl_iff filter_empty_conv)

lemma GetChirp_stored:
  "up q \<Longrightarrow> chirpID \<in> set (map c_ID (chirps q)) \<Longrightarrow>
     \<exists>chirp \<in> set (chirps q). c_ID chirp = chirpID \<and> GetChirp q chirpID = Inr chirp"
proof -
  assume u: "up q" and "chirpID \<in> set (map c_ID (chirps q))"
  then have "\<exists>c \<in> set (chirps q). c_ID c = chirpID"
    by auto
  then obtain chirp where c: "one (filter (\<lambda>c. c_ID c = chirpID) (chirps q)) = Inr chirp"
    using one_filter_Inr_iff [of "\<lambda>c. c_ID c = chirpID" "chirps q"] by blast
  then have "chirp \<in> set (chirps q) \<and> c_ID chirp = chirpID"
    by (rule one_filter_Inr)
  with u c show ?thesis
    by (auto simp: GetChirp_def)
qed

text \<open>
  C7: on a delete request whose path value is an id, with the database reachable. If no
  chirp has the id the handler answers 404, whatever the headers and whatever the
  validation of the token would give: the outcome is fixed before the request is
  authenticated and before any owner is compared. If the chirp exists and the request
  is authenticated as a user who is not its owner, the handler answers 403 and leaves
  the database as it was. If the request is authenticated as the owner, the handler
  answers 204 and no chirp with the id is left.
\<close>

theorem deleteChirpsChirpID_outcomes:
  assumes "up q" and "uuidParse pathValue = Inr chirpID"
  shows "(chirpID \<notin> set (map c_ID (chirps q)) \<longrightarrow>
            deleteChirpsChirpID uuidParse validateJWT pathValue headers secret q
              = ([WriteHeader 404], q)) \<and>
         (chirpID \<in> set (map c_ID (chirps q)) \<longrightarrow>
            (\<exists>chirp \<in> set (chirps q). c_ID chirp = chirpID \<and> GetChirp q chirpID = Inr chirp)) \<and>
         (\<forall>chirp tokenString userID.
            GetChirp q chirpID = Inr chirp \<and> GetBearerToken headers = Inr tokenString \<and>
            validateJWT tokenString secret = Inr userID \<longrightarrow>
              (userID \<noteq> c_UserID chirp \<longrightarrow>
                 deleteChirpsChirpID uuidParse validateJWT pathValue headers secret q
                   = ([WriteHeader 403], q)) \<and>
              (userID = c_UserID chirp \<longrightarrow>
                 deleteChirpsChirpID uuidParse validateJWT pathValue headers secret q
                   = ([WriteHeader 204],
                      q\<lparr>chirps := filter (\<lambda>c. c_ID c \<noteq> chirpID) (chirps q)\<rparr>) \<and>
                 chirpID \<notin> set (map c_ID (chirps (snd
                   (deleteChirpsChirpID uuidParse validateJWT pathValue headers secret q))))))"
proof -
  have a: "chirpID \<notin> set (map c_ID (chirps q)) \<longrightarrow>
            deleteChirpsChirpID uuidParse validateJWT pathValue headers secret q
              = ([WriteHeader 404], q)"
  proof
    assume "chirpID \<notin> set (map c_ID (chirps q))"
    with assms(1) have "GetChirp q chirpID = Inl ErrNoRows"
      by (rule GetChirp_missing)
    with assms(2) show "deleteChirpsChirpID uuidParse validateJWT pathValue headers secret q
              = ([WriteHeader 404], q)"
      by (simp add: deleteChirpsChirpID_def)
  qed
  have b: "chirpID \<in> set (map c_ID (chirps q)) \<longrightarrow>
            (\<exists>chirp \<in> set (chirps q). c_ID chirp = chirpID \<and> GetChirp q chirpID = Inr chirp)"
    using assms(1) GetChirp_stored [of q chirpID] by blast
  have c: "\<forall>chirp tokenString userID.
            GetChirp q chirpID = Inr chirp \<and> GetBearerToken headers = Inr tokenString \<and>
            validateJWT tokenString secret = Inr userID \<longrightarrow>
              (userID \<noteq> c_UserID chirp \<longrightarrow>
                 deleteChirpsChirpID uuidParse validateJWT pathValue headers secret q
                   = ([WriteHeader 403], q)) \<and>
              (userID = c_UserID chirp \<longrightarrow>
                 deleteChirpsChirpID uuidParse validateJWT pathValue headers secret q
                   = ([WriteHeader 204],
                      q\<lparr>chirps := filter (\<lambda>c. c_ID c \<noteq> chirpID) (chirps q)\<rparr>) \<and>
                 chirpID \<notin> set (map c_ID (chirps (snd
                   (deleteChirpsChirpID uuidParse validateJWT pathValue headers secret q)))))"
  proof (intro allI impI)
    fix chirp tokenString userID
    assume h: "GetChirp q chirpID = Inr chirp \<and> GetBearerToken headers = Inr tokenString \<and>
            validateJWT tokenString secret = Inr userID"
    have forbidden: "userID \<noteq> c_UserID chirp \<longrightarrow>
                 deleteChirpsChirpID uuidParse validateJWT pathValue headers secret q
                   = ([WriteHeader 403], q)"
      using h assms(2) by (auto simp: deleteChirpsChirpID_def)
    have deleted: "userID = c_UserID chirp \<longrightarrow>
                 deleteChirpsChirpID uuidParse validateJWT pathValue headers secret q
                   = ([WriteHeader 204],
                      q\<lparr>chirps := filter (\<lambda>c. c_ID c \<noteq> chirpID) (chirps q)\<rparr>)"
      using h assms by (simp add: deleteChirpsChirpID_def DeleteChirp_def)
    have gone: "userID = c_UserID chirp \<longrightarrow>
                 chirpID \<notin> set (map c_ID (chirps (snd
                   (deleteChirpsChirpID uuidParse validateJWT pathValue headers secret q))))"
    proof
      assume "userID = c_UserID chirp"
      with deleted have "deleteChirpsChirpID uuidParse validateJWT pathValue headers secret q
                   = ([WriteHeader 204],
                      q\<lparr>chirps := filter (\<lambda>c. c_ID c \<noteq> chirpID) (chirps q)\<rparr>)"
        by (rule mp)
      then show "chirpID \<notin> set (map c_ID (chirps (snd
                   (deleteChirpsChirpID uuidParse validateJWT pathValue headers secret q))))"
        by auto
    qed
    from forbidden deleted gone
    show "(userID \<noteq> c_UserID chirp \<longrightarrow>
                 deleteChirpsChirpID uuidParse validateJWT pathValue headers secret q
                   = ([WriteHeader 403], q)) \<and>
              (userID = c_UserID chirp \<longrightarrow>
                 deleteChirpsChirpID uuidParse validateJWT pathValue headers secret q
                   = ([WriteHeader 204],
                      q\<lparr>chirps := filter (\<lambda>c. c_ID c \<noteq> chirpID) (chirps q)\<rparr>) \<and>
                 chirpID \<notin> set (map c_ID (chirps (snd
                   (deleteChirpsChirpID uuidParse validateJWT pathValue headers secret q)))))"
      by blast
  qed
  show ?thesis
    by (rule conjI, rule a, rule conjI, rule b, rule c)
qed

text \<open>A database for the examples: one chirp, with the id 1, of the user 7.\<close>

definition oneChirp :: Queries where
  "oneChirp = \<lparr>up = True, users = [], refresh_tokens = [],
                chirps = [\<lparr>c_ID = 1, c_CreatedAt = 0, c_UpdatedAt = 0, c_Body = ''hello'',
                           c_UserID = 7\<rparr>]\<rparr>"

theorem deleteChirpsChirpID_outcomes_witness:
  "deleteChirpsChirpID (\<lambda>s. Inr 2) (\<lambda>tokenString secret. Inr 7) ''2''
     [''Authorization'' \<mapsto> [''Bearer abc'']] ''secret'' oneChirp = ([WriteHeader 404], oneChirp) \<and>
   deleteChirpsChirpID (\<lambda>s. Inr 1) (\<lambda>tokenString secret. Inr 8) ''1''
     [''Authorization'' \<mapsto> [''Bearer abc'']] ''secret'' oneChirp = ([WriteHeader 403], oneChirp) \<and>
   deleteChirpsChirpID (\<lambda>s. Inr 1) (\<lambda>tokenString secret. Inr 7) ''1''
     [''Authorization'' \<mapsto> [''Bearer abc'']] ''secret'' oneChirp
     = ([WriteHeader 204], oneChirp\<lparr>chirps := []\<rparr>)"
proof -
  let ?h = "[''Authorization'' \<mapsto> [''Bearer abc'']]"
  let ?c = "\<lparr>c_ID = 1, c_CreatedAt = 0, c_UpdatedAt = 0, c_Body = ''hello'', c_UserID = 7\<rparr> :: Chirp"
  have u: "up oneChirp"
    by (simp add: oneChirp_def)
  have g: "GetChirp oneChirp 1 = Inr ?c"
    by (simp add: GetChirp_def oneChirp_def one_def)
  have n: "2 \<notin> set (map c_ID (chirps oneChirp))"
    by (simp add: oneChirp_def)
  have p2: "(\<lambda>s :: string. Inr 2 :: error + UUID) ''2'' = Inr 2"
    by simp
  have p1: "(\<lambda>s :: string. Inr 1 :: error + UUID) ''1'' = Inr 1"
    by simp
  from deleteChirpsChirpID_outcomes [where validateJWT = "\<lambda>tokenString secret. Inr 7" and headers = ?h
      and secret = "''secret''", OF u p2] n
  have a: "deleteChirpsChirpID (\<lambda>s. Inr 2) (\<lambda>tokenString secret. Inr 7) ''2'' ?h ''secret'' oneChirp
     = ([WriteHeader 404], oneChirp)"
    by blast
  have k8: "GetChirp oneChirp 1 = Inr ?c \<and> GetBearerToken ?h = Inr ''abc'' \<and>
      (\<lambda>(tokenString :: string) (secret :: string). Inr 8 :: error + UUID) ''abc'' ''secret'' = Inr 8"
    using g by (simp add: GetBearerToken_abc)
  have k7: "GetChirp oneChirp 1 = Inr ?c \<and> GetBearerToken ?h = Inr ''abc'' \<and>
      (\<lambda>(tokenString :: string) (secret :: string). Inr 7 :: error + UUID) ''abc'' ''secret'' = Inr 7"
    using g by (simp add: GetBearerToken_abc)
  have ne: "(8 :: UUID) \<noteq> c_UserID ?c"
    by simp
  have eq: "(7 :: UUID) = c_UserID ?c"
    by simp
  from deleteChirpsChirpID_outcomes [where validateJWT = "\<lambda>tokenString secret. Inr 8" and headers = ?h
      and secret = "''secret''", OF u p1] k8 ne
  have b: "deleteChirpsChirpID (\<lambda>s. Inr 1) (\<lambda>tokenString secret. Inr 8) ''1'' ?h ''secret'' oneChirp
     = ([WriteHeader 403], oneChirp)"
    by blast
  from deleteChirpsChirpID_outcomes [where validateJWT = "\<lambda>tokenString secret. Inr 7" and headers = ?h
      and secret = "''secret''", OF u p1] k7 eq
  have "deleteChirpsChirpID (\<lambda>s. Inr 1) (\<lambda>tokenString secret. Inr 7) ''1'' ?h ''secret'' oneChirp
     = ([WriteHeader 204], oneChirp\<lparr>chirps := filter (\<lambda>c. c_ID c \<noteq> 1) (chirps oneChirp)\<rparr>)"
    by blast
  then have c: "deleteChirpsChirpID (\<lambda>s. Inr 1) (\<lambda>tokenString secret. Inr 7) ''1'' ?h ''secret'' oneChirp
     = ([WriteHeader 204], oneChirp\<lparr>chirps := []\<rparr>)"
    by (simp add: oneChirp_def)
  show ?thesis
    by (intro conjI) (rule a, rule b, rule c)
qed

section \<open>Package auth: access tokens\<close>

text \<open>
  \<^verbatim>\<open>MakeJWT\<close> and \<^verbatim>\<open>ValidateJWT\<close> are a few lines around the library
  \<^verbatim>\<open>golang-jwt/jwt/v5\<close>. What the library does with the claims and the clock is
  modelled here as the library documents it:

  \<^item> a token string is identified with the three segments it decodes to: the signing
    method of its header, its registered claims and its signature; a string that does
    not decode is \<open>malformed\<close>;
  \<^item> the message authentication code is a parameter \<open>hmac\<close>, a function of the method,
    the key and the signed segments; verifying a signature is recomputing it;
  \<^item> a \<^verbatim>\<open>NumericDate\<close> is a time truncated to the precision of the library, the
    second;
  \<^item> the validator rejects a token whose \<open>exp\<close> claim is not after the current time
    and one whose \<open>nbf\<close> claim is after it; it does not look at the \<open>iat\<close> claim;
  \<^item> \<^verbatim>\<open>uuid.UUID.String\<close> and \<^verbatim>\<open>uuid.Parse\<close> are the parameters \<open>uuid_String\<close> and
    \<open>uuid_Parse\<close>.
\<close>

datatype SigningMethod = HS256 | HS384 | HS512 | notHMAC string | unavailable string

record RegisteredClaims =
  Issuer :: string
  Subject :: string
  Audience :: "string list"
  ExpiresAt :: "Time option"
  NotBefore :: "Time option"
  IssuedAt :: "Time option"
  ID :: string

datatype jwt =
    compact SigningMethod RegisteredClaims string
  | malformed string

type_synonym mac = "SigningMethod \<Rightarrow> string \<Rightarrow> SigningMethod \<times> RegisteredClaims \<Rightarrow> string"

text \<open>\<^verbatim>\<open>jwt.NewNumericDate(t)\<close> is \<^verbatim>\<open>t.Truncate(TimePrecision)\<close>: the time rounded down
  to a whole second.\<close>

definition NewNumericDate :: "Time \<Rightarrow> Time" where
  "NewNumericDate t = (t div Second) * Second"

text \<open>\<^verbatim>\<open>Token.SignedString(key)\<close> with a key of bytes and a method of the HMAC family
  has no error to report.\<close>

definition SignedString :: "mac \<Rightarrow> SigningMethod \<Rightarrow> RegisteredClaims \<Rightarrow> string \<Rightarrow> error + jwt" where
  "SignedString hmac method claims key = Inr (compact method claims (hmac method key (method, claims)))"

text \<open>\<^verbatim>\<open>MakeJWT\<close> reads the clock twice: \<open>now1\<close> for the claim \<open>iat\<close>, then \<open>now2\<close> for
  the claim \<open>exp\<close>.\<close>

definition MakeJWT ::
  "(UUID \<Rightarrow> string) \<Rightarrow> mac \<Rightarrow> Time \<Rightarrow> Time \<Rightarrow> UUID \<Rightarrow> string \<Rightarrow> Duration \<Rightarrow> error + jwt" where
  "MakeJWT uuid_String hmac now1 now2 userID tokenSecret expiresIn =
     (case SignedString hmac HS256
             \<lparr>Issuer = ''chirpy'', Subject = uuid_String userID, Audience = [],
              ExpiresAt = Some (NewNumericDate (now2 + expiresIn)), NotBefore = None,
              IssuedAt = Some (NewNumericDate now1), ID = []\<rparr>
             tokenSecret of
        Inl err \<Rightarrow> Inl (wrapError ''MakeJWT'' err)
      | Inr tokenString \<Rightarrow> Inr tokenString)"

text \<open>The validator of the library with its default options: the errors of the claims
  \<open>exp\<close> and \<open>nbf\<close>, in this order.\<close>

definition claimErrors :: "Time \<Rightarrow> RegisteredClaims \<Rightarrow> error list" where
  "claimErrors now claims =
     (case ExpiresAt claims of
        None \<Rightarrow> []
      | Some expiry \<Rightarrow> if now < expiry then [] else [ErrTokenExpired]) @
     (case NotBefore claims of
        None \<Rightarrow> []
      | Some nbf \<Rightarrow> if nbf \<le> now then [] else [ErrTokenNotValidYet])"

text \<open>\<^verbatim>\<open>jwt.ParseWithClaims\<close> with the key function of \<^verbatim>\<open>ValidateJWT\<close>, which returns
  the secret as bytes whatever the token: the signature is verified first, then the
  claims are validated.\<close>

definition ParseWithClaims :: "mac \<Rightarrow> Time \<Rightarrow> jwt \<Rightarrow> string \<Rightarrow> error + RegisteredClaims" where
  "ParseWithClaims hmac now tokenString key =
     (case tokenString of
        malformed s \<Rightarrow> Inl ErrTokenMalformed
      | compact method claims signature \<Rightarrow>
          (case method of
             unavailable alg \<Rightarrow> Inl ErrTokenUnverifiable
           | notHMAC alg \<Rightarrow> Inl ErrTokenSignatureInvalid
           | _ \<Rightarrow>
               if signature \<noteq> hmac method key (method, claims) then Inl ErrTokenSignatureInvalid
               else if claimErrors now claims \<noteq> []
                 then Inl (ErrTokenInvalidClaims (claimErrors now claims))
               else Inr claims))"

definition ValidateJWT ::
  "(string \<Rightarrow> error + UUID) \<Rightarrow> mac \<Rightarrow> Time \<Rightarrow> jwt \<Rightarrow> string \<Rightarrow> error + UUID" where
  "ValidateJWT uuid_Parse hmac now tokenString tokenSecret =
     (case ParseWithClaims hmac now tokenString tokenSecret of
        Inl err \<Rightarrow> Inl (wrapError ''ValidateJWT'' err)
      | Inr claims \<Rightarrow>
          (let uuidString = Subject claims; issuer = Issuer claims in
           if issuer \<noteq> ''chirpy'' then Inl (errorString ''invalid issuer'')
           else
             (case uuid_Parse uuidString of
                Inl err \<Rightarrow> Inl (wrapError ''ValidateJWT'' err)
              | Inr tokenUUID \<Rightarrow> Inr tokenUUID)))"

text \<open>\<open>Validate(Issue(u, t))\<close>: a token is issued with the clock at \<open>now1\<close> and \<open>now2\<close>
  and validated, under the secret \<open>secret'\<close>, with the clock at \<open>now\<close>.\<close>

definition validateIssued ::
  "(UUID \<Rightarrow> string) \<Rightarrow> (string \<Rightarrow> error + UUID) \<Rightarrow> mac \<Rightarrow> Time \<Rightarrow> Time \<Rightarrow> Time \<Rightarrow>
   UUID \<Rightarrow> string \<Rightarrow> string \<Rightarrow> Duration \<Rightarrow> error + UUID" where
  "validateIssued uuid_String uuid_Parse hmac now1 now2 now userID secret secret' expiresIn =
     (case MakeJWT uuid_String hmac now1 now2 userID secret expiresIn of
        Inl err \<Rightarrow> Inl err
      | Inr tokenString \<Rightarrow> ValidateJWT uuid_Parse hmac now tokenString secret')"

subsection \<open>Claim C4\<close>

lemma NewNumericDate_le: "NewNumericDate t \<le> t"
  by (simp add: NewNumericDate_def Second_def)

lemma NewNumericDate_gt: "t - Second < NewNumericDate t"
proof -
  have "t = (t div Second) * Second + t mod Second"
    by simp
  moreover have "t mod Second < Second"
    by (simp add: Second_def)
  ultimately show ?thesis
    unfolding NewNumericDate_def by linarith
qed

lemma MakeJWT_Inr:
  "MakeJWT uuid_String hmac now1 now2 userID tokenSecret expiresIn =
     Inr (compact HS256
            \<lparr>Issuer = ''chirpy'', Subject = uuid_String userID, Audience = [],
             ExpiresAt = Some (NewNumericDate (now2 + expiresIn)), NotBefore = None,
             IssuedAt = Some (NewNumericDate now1), ID = []\<rparr>
            (hmac HS256 tokenSecret
               (HS256, \<lparr>Issuer = ''chirpy'', Subject = uuid_String userID, Audience = [],
                 ExpiresAt = Some (NewNumericDate (now2 + expiresIn)), NotBefore = None,
                 IssuedAt = Some (NewNumericDate now1), ID = []\<rparr>)))"
  by (simp add: MakeJWT_def SignedString_def)

lemma validateIssued_eq:
  "uuid_Parse (uuid_String u) = Inr u \<Longrightarrow>
   validateIssued uuid_String uuid_Parse hmac now1 now2 now u secret secret t =
     (if now < NewNumericDate (now2 + t) then Inr u
      else Inl (wrapError ''ValidateJWT'' (ErrTokenInvalidClaims [ErrTokenExpired])))"
  by (simp add: validateIssued_def MakeJWT_Inr ValidateJWT_def ParseWithClaims_def claimErrors_def)

text \<open>Stand-ins for the functions of the libraries in the examples: two identifiers
  with their strings, and a code that depends on the key and on the subject.\<close>

definition exampleString :: "UUID \<Rightarrow> string" where
  "exampleString u =
     (if u = 7 then ''00000000-0000-0000-0000-000000000007''
      else ''00000000-0000-0000-0000-000000000000'')"

definition exampleParse :: "string \<Rightarrow> error + UUID" where
  "exampleParse s =
     (if s = ''00000000-0000-0000-0000-000000000007'' then Inr 7
      else if s = ''00000000-0000-0000-0000-000000000000'' then Inr 0
      else Inl ErrInvalidUUID)"

definition exampleMac :: mac where
  "exampleMac method key input = key @ Subject (snd input)"

text \<open>
  C4, as the specification states it: for every ttl \<open>t > 0\<close> a token just issued
  validates, and from the time \<open>issued-at + t\<close> on it fails with the expiry error. The
  claim \<open>exp\<close> is the clock plus the ttl, rounded down to a whole second. With a ttl of
  one nanosecond issued at 1.5 s the claim \<open>exp\<close> is 1 s, and the token is expired at
  the instant it is issued. With a ttl of 1.2 s issued at 0.9 s the claim \<open>iat\<close> is
  0 s and the claim \<open>exp\<close> is 2 s: at 1.2 s, which is \<open>iat\<close> plus the ttl, the token
  still validates.
\<close>

theorem validateIssued_subsecond_counterexample:
  "(0 :: Duration) < 1 \<and>
   validateIssued exampleString exampleParse exampleMac 1500000000 1500000000 1500000000
     7 ''secret'' ''secret'' 1
     = Inl (wrapError ''ValidateJWT'' (ErrTokenInvalidClaims [ErrTokenExpired])) \<and>
   NewNumericDate 900000000 + 1200000000 \<le> (1200000000 :: Time) \<and>
   validateIssued exampleString exampleParse exampleMac 900000000 900000000 1200000000
     7 ''secret'' ''secret'' 1200000000
     = Inr 7"
proof -
  have p: "exampleParse (exampleString 7) = Inr 7"
    by (simp add: exampleParse_def exampleString_def)
  have a: "\<not> (1500000000 :: Time) < NewNumericDate (1500000000 + 1)"
    by (simp add: NewNumericDate_def Second_def)
  have b: "(1200000000 :: Time) < NewNumericDate (900000000 + 1200000000)"
    by (simp add: NewNumericDate_def Second_def)
  have c: "NewNumericDate 900000000 + 1200000000 \<le> (1200000000 :: Time)"
    by (simp add: NewNumericDate_def Second_def)
  from a b c show ?thesis
    by (simp add: validateIssued_eq [where uuid_Parse = exampleParse
        and uuid_String = exampleString and u = 7, OF p])
qed

text \<open>
  C4, amended: for every user id \<open>u\<close> whose string parses back to \<open>u\<close> and every ttl
  \<open>t\<close>, a token issued for \<open>u\<close> with the ttl \<open>t\<close> validates under the same secret to
  \<open>u\<close> at every time before its claim \<open>exp\<close>, the clock at the issue plus \<open>t\<close> rounded
  down to a whole second, and fails with the expiry error from that time on. So, when
  \<open>t\<close> is at least one second, the token validates at the instant it is issued and
  until \<open>t\<close> minus one second later; and whatever \<open>t\<close> is, it fails with the expiry
  error once the current time is at or past the clock at the issue plus \<open>t\<close>.
\<close>

theorem validateIssued_spec:
  assumes "uuid_Parse (uuid_String u) = Inr u"
  shows "validateIssued uuid_String uuid_Parse hmac now1 now2 now u secret secret t =
           (if now < NewNumericDate (now2 + t) then Inr u
            else Inl (wrapError ''ValidateJWT'' (ErrTokenInvalidClaims [ErrTokenExpired]))) \<and>
         (Second \<le> t \<longrightarrow>
            validateIssued uuid_String uuid_Parse hmac now1 now2 now2 u secret secret t = Inr u) \<and>
         (now \<le> now2 + t - Second \<longrightarrow>
            validateIssued uuid_String uuid_Parse hmac now1 now2 now u secret secret t = Inr u) \<and>
         (now2 + t \<le> now \<longrightarrow>
            validateIssued uuid_String uuid_Parse hmac now1 now2 now u secret secret t
              = Inl (wrapError ''ValidateJWT'' (ErrTokenInvalidClaims [ErrTokenExpired])))"
proof -
  note eq = validateIssued_eq [where uuid_Parse = uuid_Parse and uuid_String = uuid_String
      and u = u, OF assms]
  have a: "validateIssued uuid_String uuid_Parse hmac now1 now2 now u secret secret t =
           (if now < NewNumericDate (now2 + t) then Inr u
            else Inl (wrapError ''ValidateJWT'' (ErrTokenInvalidClaims [ErrTokenExpired])))"
    by (rule eq)
  have b: "Second \<le> t \<longrightarrow>
            validateIssued uuid_String uuid_Parse hmac now1 now2 now2 u secret secret t = Inr u"
  proof
    assume "Second \<le> t"
    with NewNumericDate_gt [of "now2 + t"] have "now2 < NewNumericDate (now2 + t)"
      by linarith
    then show "validateIssued uuid_String uuid_Parse hmac now1 now2 now2 u secret secret t = Inr u"
      by (simp add: eq)
  qed
  have c: "now \<le> now2 + t - Second \<longrightarrow>
            validateIssued uuid_String uuid_Parse hmac now1 now2 now u secret secret t = Inr u"
  proof
    assume "now \<le> now2 + t - Second"
    with NewNumericDate_gt [of "now2 + t"] have "now < NewNumericDate (now2 + t)"
      by linarith
    then show "validateIssued uuid_String uuid_Parse hmac now1 now2 now u secret secret t = Inr u"
      by (simp add: eq)
  qed
  have d: "now2 + t \<le> now \<longrightarrow>
            validateIssued uuid_String uuid_Parse hmac now1 now2 now u secret secret t
              = Inl (wrapError ''ValidateJWT'' (ErrTokenInvalidClaims [ErrTokenExpired]))"
  proof
    assume "now2 + t \<le> now"
    with NewNumericDate_le [of "now2 + t"] have "\<not> now < NewNumericDate (now2 + t)"
      by linarith
    then show "validateIssued uuid_String uuid_Parse hmac now1 now2 now u secret secret t
              = Inl (wrapError ''ValidateJWT'' (ErrTokenInvalidClaims [ErrTokenExpired]))"
      by (simp add: eq)
  qed
  show ?thesis
    by (intro conjI) (rule a, rule b, rule c, rule d)
qed

theorem validateIssued_spec_witness:
  "exampleParse (exampleString 7) = Inr 7 \<and> Second \<le> Hour \<and>
   validateIssued exampleString exampleParse exampleMac 1500000000 1500000001 1500000001
     7 ''secret'' ''secret'' Hour = Inr 7 \<and>
   validateIssued exampleString exampleParse exampleMac 1500000000 1500000001 (1500000001 + Hour)
     7 ''secret'' ''secret'' Hour
     = Inl (wrapError ''ValidateJWT'' (ErrTokenInvalidClaims [ErrTokenExpired]))"
proof -
  have p: "exampleParse (exampleString 7) = Inr 7"
    by (simp add: exampleParse_def exampleString_def)
  have h: "Second \<le> Hour"
    by (simp add: Hour_def Second_def)
  note w = validateIssued_spec [where uuid_Parse = exampleParse and uuid_String = exampleString
      and u = 7 and hmac = exampleMac and ?now1.0 = 1500000000
      and ?now2.0 = 1500000001 and secret = "''secret''" and t = Hour, OF p]
  from w [of "1500000001"] h
  have a: "validateIssued exampleString exampleParse exampleMac 1500000000 1500000001 1500000001
     7 ''secret'' ''secret'' Hour = Inr 7"
    by blast
  have "(1500000001 :: Time) + Hour \<le> 1500000001 + Hour"
    by simp
  with w [of "1500000001 + Hour"]
  have b: "validateIssued exampleString exampleParse exampleMac 1500000000 1500000001 (1500000001 + Hour)
     7 ''secret'' ''secret'' Hour
     = Inl (wrapError ''ValidateJWT'' (ErrTokenInvalidClaims [ErrTokenExpired]))"
    by blast
  show ?thesis
    by (intro conjI) (rule p, rule h, rule a, rule b)
qed

section \<open>Package auth: passwords\<close>

text \<open>
  \<^verbatim>\<open>HashPassword\<close> and \<^verbatim>\<open>CheckPasswordHash\<close> hand the password to the package
  \<^verbatim>\<open>golang.org/x/crypto/bcrypt\<close>. What is modelled of the library:

  \<^item> \<^verbatim>\<open>GenerateFromPassword\<close> refuses a password of more than 72 bytes and draws a
    salt, here the parameter \<open>salt\<close>;
  \<^item> the key of the cipher is the password followed by a zero byte, and the key
    schedule reads 72 bytes of it, starting again at its first byte when it reaches its
    end: \<open>keyBytes\<close>. All that follows in the computation of the digest, the parameter
    \<open>core\<close>, sees the password through these bytes only;
  \<^item> a credential is identified with the cost, the salt and the digest that its string
    decodes to; a string that does not decode is \<open>notAHash\<close>;
  \<^item> \<^verbatim>\<open>CompareHashAndPassword\<close> recomputes the digest with the cost and the salt of
    the credential and compares. It does not look at the length of the password.
\<close>

type_synonym core = "nat \<Rightarrow> string \<Rightarrow> string \<Rightarrow> string"

datatype credential = bcryptHash nat string string | notAHash string

definition DefaultCost :: nat where
  "DefaultCost = 10"

definition keyBytes :: "string \<Rightarrow> string" where
  "keyBytes password = take 72 (concat (replicate 72 (password @ [CHR 0x00])))"

definition bcrypt :: "core \<Rightarrow> string \<Rightarrow> nat \<Rightarrow> string \<Rightarrow> string" where
  "bcrypt core password cost salt = core cost salt (keyBytes password)"

definition GenerateFromPassword :: "core \<Rightarrow> string \<Rightarrow> string \<Rightarrow> nat \<Rightarrow> error + credential" where
  "GenerateFromPassword core salt password cost =
     (if length password > 72 then Inl ErrPasswordTooLong
      else Inr (bcryptHash cost salt (bcrypt core password cost salt)))"

definition CompareHashAndPassword :: "core \<Rightarrow> credential \<Rightarrow> string \<Rightarrow> error option" where
  "CompareHashAndPassword core hashedPassword password =
     (case hashedPassword of
        notAHash s \<Rightarrow> Some ErrHashTooShort
      | bcryptHash cost salt digest \<Rightarrow>
          if bcrypt core password cost salt = digest then None
          else Some ErrMismatchedHashAndPassword)"

definition HashPassword :: "core \<Rightarrow> string \<Rightarrow> string \<Rightarrow> error + credential" where
  "HashPassword core salt password =
     (case GenerateFromPassword core salt password DefaultCost of
        Inl err \<Rightarrow> Inl (wrapError ''HashPassword'' err)
      | Inr hash \<Rightarrow> Inr hash)"

definition CheckPasswordHash :: "core \<Rightarrow> string \<Rightarrow> credential \<Rightarrow> error option" where
  "CheckPasswordHash core password hash = CompareHashAndPassword core hash password"

text \<open>\<open>Verify(p', Hash(p))\<close>: the password \<open>p\<close> is hashed with the salt \<open>salt\<close> and \<open>p'\<close>
  is checked against the credential; \<open>None\<close> is success.\<close>

definition verifyHashed :: "core \<Rightarrow> string \<Rightarrow> string \<Rightarrow> string \<Rightarrow> error option" where
  "verifyHashed core salt p p' =
     (case HashPassword core salt p of
        Inl err \<Rightarrow> Some err
      | Inr hash \<Rightarrow> CheckPasswordHash core p' hash)"

subsection \<open>Claim C8\<close>

lemma verifyHashed_eq:
  "length p \<le> 72 \<Longrightarrow>
   verifyHashed core salt p p' =
     (if core DefaultCost salt (keyBytes p') = core DefaultCost salt (keyBytes p) then None
      else Some ErrMismatchedHashAndPassword)"
  by (simp add: verifyHashed_def HashPassword_def GenerateFromPassword_def
      CheckPasswordHash_def CompareHashAndPassword_def bcrypt_def)

lemma keyBytes_long: "72 \<le> length p \<Longrightarrow> keyBytes p = take 72 p"
proof -
  assume l: "72 \<le> length p"
  have "replicate 72 (p @ [CHR 0x00]) = (p @ [CHR 0x00]) # replicate 71 (p @ [CHR 0x00])"
    by (simp add: numeral_eq_Suc)
  then have "concat (replicate 72 (p @ [CHR 0x00])) =
      p @ ([CHR 0x00] @ concat (replicate 71 (p @ [CHR 0x00])))"
    by simp
  with l show ?thesis
    by (simp add: keyBytes_def)
qed

text \<open>A stand-in for the computation of the digest in the examples: the digest is the
  72 bytes read from the key.\<close>

definition exampleCore :: core where
  "exampleCore cost salt key = key"

text \<open>
  C8, as the specification states it: verifying \<open>p'\<close> against the credential of \<open>p\<close>
  fails for every pair of distinct passwords. The password of 73 letters \<open>a\<close> verifies
  against the credential of the password of 72 letters \<open>a\<close>: the key schedule reads the
  same 72 bytes from both.
\<close>

theorem verifyHashed_long_counterexample:
  "replicate 73 (CHR ''a'') \<noteq> replicate 72 (CHR ''a'') \<and>
   keyBytes (replicate 73 (CHR ''a'')) = keyBytes (replicate 72 (CHR ''a'')) \<and>
   verifyHashed exampleCore ''salt'' (replicate 72 (CHR ''a'')) (replicate 73 (CHR ''a'')) = None"
proof -
  have a: "replicate 73 (CHR ''a'') \<noteq> replicate 72 (CHR ''a'')"
  proof
    assume "replicate 73 (CHR ''a'') = replicate 72 (CHR ''a'')"
    then have "length (replicate 73 (CHR ''a'')) = length (replicate 72 (CHR ''a''))"
      by (rule arg_cong)
    then show False by simp
  qed
  have "take 72 (replicate 73 (CHR ''a'')) = take 72 (replicate 72 (CHR ''a''))"
    by simp
  then have b: "keyBytes (replicate 73 (CHR ''a'')) = keyBytes (replicate 72 (CHR ''a''))"
    by (simp add: keyBytes_long)
  then have c: "verifyHashed exampleCore ''salt'' (replicate 72 (CHR ''a'')) (replicate 73 (CHR ''a'')) = None"
    by (simp add: verifyHashed_eq)
  show ?thesis
    by (intro conjI) (rule a, rule b, rule c)
qed

text \<open>
  C8, amended: for every password \<open>p\<close> of at most 72 bytes, verifying \<open>p\<close> against the
  credential produced by hashing \<open>p\<close> succeeds, and verifying a password \<open>p'\<close> against
  it fails if and only if the digest of \<open>p'\<close> under the salt and the cost of the
  credential differs from the digest of \<open>p\<close>. The digest depends on the password
  through the 72 bytes of the key schedule only, so two distinct passwords with the
  same such bytes verify against each other's credentials. Hashing a password of more
  than 72 bytes fails.
\<close>

theorem verifyHashed_spec:
  "(length p \<le> 72 \<longrightarrow> verifyHashed core salt p p = None) \<and>
   (length p \<le> 72 \<longrightarrow>
      (verifyHashed core salt p p' \<noteq> None \<longleftrightarrow>
         core DefaultCost salt (keyBytes p') \<noteq> core DefaultCost salt (keyBytes p))) \<and>
   (length p \<le> 72 \<and> keyBytes p' = keyBytes p \<longrightarrow> verifyHashed core salt p p' = None) \<and>
   (72 < length p \<longrightarrow> HashPassword core salt p = Inl (wrapError ''HashPassword'' ErrPasswordTooLong))"
proof -
  have a: "length p \<le> 72 \<longrightarrow> verifyHashed core salt p p = None"
    by (simp add: verifyHashed_eq)
  have b: "length p \<le> 72 \<longrightarrow>
      (verifyHashed core salt p p' \<noteq> None \<longleftrightarrow>
         core DefaultCost salt (keyBytes p') \<noteq> core DefaultCost salt (keyBytes p))"
    by (simp add: verifyHashed_eq)
  have c: "length p \<le> 72 \<and> keyBytes p' = keyBytes p \<longrightarrow> verifyHashed core salt p p' = None"
    by (simp add: verifyHashed_eq)
  have d: "72 < length p \<longrightarrow>
      HashPassword core salt p = Inl (wrapError ''HashPassword'' ErrPasswordTooLong)"
    by (simp add: HashPassword_def GenerateFromPassword_def)
  show ?thesis
    by (intro conjI) (rule a, rule b, rule c, rule d)
qed

theorem verifyHashed_spec_witness:
  "length ''hunter2'' \<le> 72 \<and>
   verifyHashed exampleCore ''salt'' ''hunter2'' ''hunter2'' = None \<and>
   verifyHashed exampleCore ''salt'' ''hunter2'' ''Hunter2'' \<noteq> None"
proof -
  have l: "length ''hunter2'' \<le> 72"
    by simp
  note w = verifyHashed_spec [where p = "''hunter2''" and core = exampleCore and salt = "''salt''"]
  from w [of "''hunter2''"] l
  have a: "verifyHashed exampleCore ''salt'' ''hunter2'' ''hunter2'' = None"
    by blast
  have "keyBytes ''Hunter2'' \<noteq> keyBytes ''hunter2''"
    by (simp add: keyBytes_def numeral_eq_Suc)
  then have "exampleCore DefaultCost ''salt'' (keyBytes ''Hunter2'')
      \<noteq> exampleCore DefaultCost ''salt'' (keyBytes ''hunter2'')"
    by (simp add: exampleCore_def)
  with w [of "''Hunter2''"] l
  have b: "verifyHashed exampleCore ''salt'' ''hunter2'' ''Hunter2'' \<noteq> None"
    by blast
  show ?thesis
    by (intro conjI) (rule l, rule a, rule b)
qed

end
